theory Spec2Isabelle
  imports Complex_Main "HOL-Library.Sublist"
begin

section \<open>Text-to-CAD backend: the model of \<^verbatim>\<open>web_demo/ml_backend.py\<close>\<close>

text \<open>
  The development follows the Python module top to bottom: string helpers, the regular
  expressions of the multi-object parser, the predictor (\<^verbatim>\<open>TextToCADModel\<close>), the parser
  (\<^verbatim>\<open>MultiObjectParser\<close>) and the HTTP handlers.

  Conventions.
  \<^item> A Python \<^verbatim>\<open>str\<close> is a \<^typ>\<open>string\<close>: a character is a code point below 256 (the
    Latin-1 range), and the helpers below follow Python on every such character. Texts with
    code points from 256 on are outside the model.
  \<^item> A Python \<^verbatim>\<open>float\<close> is a \<^typ>\<open>real\<close>, a Python \<^verbatim>\<open>int\<close> an \<^typ>\<open>int\<close> (a \<^typ>\<open>nat\<close> where
    the source never produces a negative value).
  \<^item> The fitted scikit-learn estimators are not part of the repository. The model record
    carries, for each of them, the function from a text to the value the fitted estimator
    returns for it; every theorem holds for all such functions.
  \<^item> An exception is a value of \<open>py_error\<close>; a function that can raise returns
    \<open>py_error + 'a\<close>.
\<close>

subsection \<open>Strings\<close>

definition ascii_uppercase :: string where
  "ascii_uppercase = ''ABCDEFGHIJKLMNOPQRSTUVWXYZ''"

definition ascii_lowercase :: string where
  "ascii_lowercase = ''abcdefghijklmnopqrstuvwxyz''"

definition digits :: string where
  "digits = ''0123456789''"

text \<open>The upper-case letters from U+00C0 to U+00DE (all but the multiplication sign U+00D7),
  and their lower-case forms, 32 code points higher.\<close>

definition latin1_uppercase :: string where
  "latin1_uppercase =
     [CHR 0xC0, CHR 0xC1, CHR 0xC2, CHR 0xC3, CHR 0xC4, CHR 0xC5, CHR 0xC6, CHR 0xC7,
     CHR 0xC8, CHR 0xC9, CHR 0xCA, CHR 0xCB, CHR 0xCC, CHR 0xCD, CHR 0xCE, CHR 0xCF,
     CHR 0xD0, CHR 0xD1, CHR 0xD2, CHR 0xD3, CHR 0xD4, CHR 0xD5, CHR 0xD6, CHR 0xD8,
     CHR 0xD9, CHR 0xDA, CHR 0xDB, CHR 0xDC, CHR 0xDD, CHR 0xDE]"

definition latin1_lowercase :: string where
  "latin1_lowercase =
     [CHR 0xE0, CHR 0xE1, CHR 0xE2, CHR 0xE3, CHR 0xE4, CHR 0xE5, CHR 0xE6, CHR 0xE7,
     CHR 0xE8, CHR 0xE9, CHR 0xEA, CHR 0xEB, CHR 0xEC, CHR 0xED, CHR 0xEE, CHR 0xEF,
     CHR 0xF0, CHR 0xF1, CHR 0xF2, CHR 0xF3, CHR 0xF4, CHR 0xF5, CHR 0xF6, CHR 0xF8,
     CHR 0xF9, CHR 0xFA, CHR 0xFB, CHR 0xFC, CHR 0xFD, CHR 0xFE]"

text \<open>The characters from U+0080 to U+00FF for which \<^verbatim>\<open>str.isalnum\<close> holds: the letters, the
  superscript digits and the fractions.\<close>

definition latin1_alnum :: string where
  "latin1_alnum =
     [CHR 0xAA, CHR 0xB2, CHR 0xB3, CHR 0xB5, CHR 0xB9, CHR 0xBA, CHR 0xBC, CHR 0xBD,
     CHR 0xBE, CHR 0xC0, CHR 0xC1, CHR 0xC2, CHR 0xC3, CHR 0xC4, CHR 0xC5, CHR 0xC6,
     CHR 0xC7, CHR 0xC8, CHR 0xC9, CHR 0xCA, CHR 0xCB, CHR 0xCC, CHR 0xCD, CHR 0xCE,
     CHR 0xCF, CHR 0xD0, CHR 0xD1, CHR 0xD2, CHR 0xD3, CHR 0xD4, CHR 0xD5, CHR 0xD6,
     CHR 0xD8, CHR 0xD9, CHR 0xDA, CHR 0xDB, CHR 0xDC, CHR 0xDD, CHR 0xDE, CHR 0xDF,
     CHR 0xE0, CHR 0xE1, CHR 0xE2, CHR 0xE3, CHR 0xE4, CHR 0xE5, CHR 0xE6, CHR 0xE7,
     CHR 0xE8, CHR 0xE9, CHR 0xEA, CHR 0xEB, CHR 0xEC, CHR 0xED, CHR 0xEE, CHR 0xEF,
     CHR 0xF0, CHR 0xF1, CHR 0xF2, CHR 0xF3, CHR 0xF4, CHR 0xF5, CHR 0xF6, CHR 0xF8,
     CHR 0xF9, CHR 0xFA, CHR 0xFB, CHR 0xFC, CHR 0xFD, CHR 0xFE, CHR 0xFF]"

text \<open>The characters for which \<^verbatim>\<open>str.isspace\<close> holds: TAB, LF, VT, FF, CR, FS, GS, RS, US, the
  blank, NEL (U+0085) and the no-break space (U+00A0).\<close>

definition whitespace :: string where
  "whitespace = [CHR 0x09, CHR 0x0A, CHR 0x0B, CHR 0x0C, CHR 0x0D,
                 CHR 0x1C, CHR 0x1D, CHR 0x1E, CHR 0x1F, CHR 0x20, CHR 0x85, CHR 0xA0]"

definition lower_char :: "char \<Rightarrow> char" where
  "lower_char c =
     (case map_of (zip (ascii_uppercase @ latin1_uppercase) (ascii_lowercase @ latin1_lowercase)) c of
        Some l \<Rightarrow> l | None \<Rightarrow> c)"

text \<open>\<^verbatim>\<open>text.lower()\<close>\<close>

definition lower :: "string \<Rightarrow> string" where
  "lower s = map lower_char s"

text \<open>\<^verbatim>\<open>w in s\<close> on strings: \<open>w\<close> occurs in \<open>s\<close> as a contiguous substring.\<close>

fun str_in :: "string \<Rightarrow> string \<Rightarrow> bool" where
  "str_in w [] = (w = [])"
| "str_in w (c # cs) = (prefix w (c # cs) \<or> str_in w cs)"

text \<open>\<^verbatim>\<open>s.strip()\<close>\<close>

definition strip :: "string \<Rightarrow> string" where
  "strip s = rev (dropWhile (\<lambda>c. c \<in> set whitespace) (rev (dropWhile (\<lambda>c. c \<in> set whitespace) s)))"

text \<open>\<^verbatim>\<open>s.split(sep)\<close> for a non-empty separator: the pieces between the occurrences of
  \<open>sep\<close>, found from left to right without overlap. \<open>acc\<close> is the piece being read.\<close>

function split_acc :: "string \<Rightarrow> string \<Rightarrow> string \<Rightarrow> string list" where
  "split_acc sep acc [] = [acc]"
| "split_acc sep acc (c # cs) =
     (if prefix sep (c # cs) then acc # split_acc sep [] (drop (length sep - 1) cs)
      else split_acc sep (acc @ [c]) cs)"
  by pat_completeness auto
termination
  by (relation "measure (\<lambda>(sep, acc, s). length s)") auto

definition split :: "string \<Rightarrow> string \<Rightarrow> string list" where
  "split s sep = split_acc sep [] s"

subsection \<open>Exceptions\<close>

text \<open>
  The exceptions the module can raise. \<open>ValueError s\<close>: \<^verbatim>\<open>int(s)\<close> on a text that is no
  number or is too long; \<open>IndexError n\<close>: \<^verbatim>\<open>group(n)\<close> on a pattern without that group; \<open>KeyError k\<close>:
  \<^verbatim>\<open>d[k]\<close> on a dictionary without the key; \<open>TypeError ty\<close>: \<^verbatim>\<open>d[k]\<close> on a value of type
  \<open>ty\<close> that is no dictionary; \<open>AttributeError ty a\<close>: attribute \<open>a\<close> read on a value of type
  \<open>ty\<close> that does not have it; \<open>EstimatorError msg\<close>: whatever a scikit-learn call raised.
\<close>

datatype py_error =
    ValueError string
  | IndexError nat
  | KeyError string
  | TypeError string
  | AttributeError string string
  | EstimatorError string

text \<open>The default of \<^verbatim>\<open>sys.get_int_max_str_digits()\<close>, which the module does not change.\<close>

definition int_max_str_digits :: nat where
  "int_max_str_digits = 4300"

text \<open>\<^verbatim>\<open>int(s)\<close> on the text of a \<^verbatim>\<open>\d+\<close> group. A string that is empty, has a character that
  is no digit, or has more digits than the limit (leading zeros count) raises
  \<^verbatim>\<open>ValueError\<close>.\<close>

definition digit_val :: "char \<Rightarrow> int" where
  "digit_val c = int (length (takeWhile (\<lambda>d. d \<noteq> c) digits))"

definition py_int :: "string \<Rightarrow> py_error + int" where
  "py_int s =
     (if s \<noteq> [] \<and> list_all (\<lambda>c. c \<in> set digits) s \<and> length s \<le> int_max_str_digits
      then Inr (foldl (\<lambda>n c. 10 * n + digit_val c) 0 s)
      else Inl (ValueError s))"

subsection \<open>Regular expressions\<close>

text \<open>
  The fragment of \<^verbatim>\<open>re\<close> the module uses: literal text, \<^verbatim>\<open>\d+\<close>, \<^verbatim>\<open>\s+\<close>, \<^verbatim>\<open>\w+\<close>,
  alternation, an optional item, capturing groups, and sequencing (non-capturing groups
  \<^verbatim>\<open>(?:...)\<close> are plain alternations).
\<close>

datatype cclass = Digit | Space | Word

fun in_class :: "cclass \<Rightarrow> char \<Rightarrow> bool" where
  "in_class Digit c = (c \<in> set digits)"
| "in_class Space c = (c \<in> set whitespace)"
| "in_class Word c =
     (c \<in> set (ascii_lowercase @ ascii_uppercase @ digits @ ''_'' @ latin1_alnum))"

datatype regex =
    Eps
  | Lit string
  | Plus cclass
  | Alt regex regex
  | Seq regex regex
  | Opt regex
  | Group regex

text \<open>A sequence \<^verbatim>\<open>r1 r2 ... rn\<close> and an alternation \<^verbatim>\<open>r1|r2|...|rn\<close>.\<close>

fun seqs :: "regex list \<Rightarrow> regex" where
  "seqs [] = Eps"
| "seqs [r] = r"
| "seqs (r # rs) = Seq r (seqs rs)"

fun alts :: "regex list \<Rightarrow> regex" where
  "alts [] = Eps"
| "alts [r] = r"
| "alts (r # rs) = Alt r (alts rs)"

text \<open>The remainders after one or more characters of the class, the longest run first
  (the quantifier is greedy and gives characters back one at a time).\<close>

fun spans :: "cclass \<Rightarrow> string \<Rightarrow> string list" where
  "spans k [] = []"
| "spans k (c # cs) = (if in_class k c then spans k cs @ [cs] else [])"

text \<open>
  \<open>rmatch r s\<close> lists every way the backtracking matcher can match \<open>r\<close> at the start of
  \<open>s\<close>, in the order in which it tries them: each entry is the texts of the groups closed
  so far (in the order of their opening parenthesis) and the rest of the input. The match
  \<^verbatim>\<open>re\<close> reports is the first entry.
\<close>

fun rmatch :: "regex \<Rightarrow> string \<Rightarrow> (string list \<times> string) list" where
  "rmatch Eps s = [([], s)]"
| "rmatch (Lit w) s = (if prefix w s then [([], drop (length w) s)] else [])"
| "rmatch (Plus k) s = map (\<lambda>r. ([], r)) (spans k s)"
| "rmatch (Alt a b) s = rmatch a s @ rmatch b s"
| "rmatch (Seq a b) s =
     concat (map (\<lambda>(g, r). map (\<lambda>(g', r'). (g @ g', r')) (rmatch b r)) (rmatch a s))"
| "rmatch (Opt a) s = rmatch a s @ [([], s)]"
| "rmatch (Group a) s =
     map (\<lambda>(g, r). (take (length s - length r) s # g, r)) (rmatch a s)"

text \<open>\<^verbatim>\<open>re.search(pattern, text)\<close>: the first match at the leftmost position that has one;
  the result is the list of the groups' texts, \<^verbatim>\<open>None\<close> when no position matches.\<close>

fun search :: "regex \<Rightarrow> string \<Rightarrow> string list option" where
  "search r [] = (case rmatch r [] of [] \<Rightarrow> None | (g, _) # _ \<Rightarrow> Some g)"
| "search r (c # cs) = (case rmatch r (c # cs) of [] \<Rightarrow> search r cs | (g, _) # _ \<Rightarrow> Some g)"

text \<open>\<^verbatim>\<open>m.group(n)\<close> for \<open>n \<ge> 1\<close>; a group the pattern does not have raises \<^verbatim>\<open>IndexError\<close>.\<close>

definition match_group :: "string list \<Rightarrow> nat \<Rightarrow> py_error + string" where
  "match_group g n = (if 1 \<le> n \<and> n \<le> length g then Inr (g ! (n - 1)) else Inl (IndexError n))"

subsection \<open>Values\<close>

text \<open>A value read from a JSON document (\<^verbatim>\<open>request.json\<close>, \<^verbatim>\<open>json.load\<close>). An object is the
  list of its members; \<^verbatim>\<open>d.get(k)\<close> and \<^verbatim>\<open>d[k]\<close> read it with \<^const>\<open>map_of\<close>.\<close>

datatype json =
    JNull
  | JBool bool
  | JInt int
  | JFloat real
  | JStr string
  | JArr "json list"
  | JObj "(string \<times> json) list"

text \<open>A position \<^verbatim>\<open>{"x": .., "y": .., "z": ..}\<close> and the parameter record of one object.
  The field \<^verbatim>\<open>size\<close> is \<open>size_of\<close> here.\<close>

record xyz =
  pos_x :: real
  pos_y :: real
  pos_z :: real

record obj =
  shape :: string
  size_of :: real
  radius :: real
  height :: real
  color :: nat
  position :: xyz
  confidence :: real

subsection \<open>The predictor: \<^verbatim>\<open>TextToCADModel\<close>\<close>

text \<open>
  The estimator objects of the class, as what they answer in their current state:
  \<open>shape_classifier e t\<close> is
  \<^verbatim>\<open>shape_classifier.predict(vectorizer.transform([t]).toarray())[0]\<close>, \<open>shape_proba e t\<close> is
  \<^verbatim>\<open>float(max(shape_classifier.predict_proba(X)[0]))\<close> for the same \<^verbatim>\<open>X\<close>, and the three
  predictors are \<^verbatim>\<open>float(size_predictor.predict(X)[0])\<close> and its two siblings.
\<close>

record estimators =
  shape_classifier :: "string \<Rightarrow> string"
  shape_proba :: "string \<Rightarrow> real"
  size_predictor :: "string \<Rightarrow> real"
  radius_predictor :: "string \<Rightarrow> real"
  height_predictor :: "string \<Rightarrow> real"

text \<open>An instance of \<^verbatim>\<open>TextToCADModel\<close>: its two attributes and its estimators.\<close>

record text_to_cad_model =
  trained :: bool
  training_data :: "json list"
  fitted :: estimators

definition color_map :: "(string \<times> nat) list" where
  "color_map =
     [(''red'', 0xff4444), (''blue'', 0x4444ff), (''green'', 0x44ff44),
      (''yellow'', 0xffff44), (''purple'', 0xff44ff), (''orange'', 0xff8844),
      (''cyan'', 0x44ffff), (''white'', 0xffffff), (''black'', 0x222222),
      (''pink'', 0xff88cc), (''brown'', 0x8b4513), (''gray'', 0x888888),
      (''grey'', 0x888888)]"

text \<open>The loop \<^verbatim>\<open>for color_name, hex_value in color_map.items()\<close>, which returns at the first
  name found in the text.\<close>

fun first_color :: "(string \<times> nat) list \<Rightarrow> string \<Rightarrow> nat option" where
  "first_color [] text_lower = None"
| "first_color ((color_name, hex_value) # rest) text_lower =
     (if str_in color_name text_lower then Some hex_value else first_color rest text_lower)"

definition find_similar_color :: "string \<Rightarrow> nat" where
  "find_similar_color text =
     (let text_lower = lower text in
      case first_color color_map text_lower of
        Some hex_value \<Rightarrow> hex_value
      | None \<Rightarrow> 0x667eea)"

text \<open>\<^verbatim>\<open>any(word in text_lower for word in words)\<close>\<close>

definition any_in :: "string list \<Rightarrow> string \<Rightarrow> bool" where
  "any_in words text_lower = list_ex (\<lambda>word. str_in word text_lower) words"

definition origin :: xyz where
  "origin = \<lparr>pos_x = 0, pos_y = 0, pos_z = 0\<rparr>"

definition rule_based_parse :: "string \<Rightarrow> obj" where
  "rule_based_parse text =
     (let text_lower = lower text;
          shp = (if any_in [''sphere'', ''ball'', ''orb'', ''globe''] text_lower then ''sphere''
                 else if any_in [''cube'', ''box'', ''block'', ''square''] text_lower then ''cube''
                 else if any_in [''cylinder'', ''tube'', ''pipe'', ''column''] text_lower then ''cylinder''
                 else if any_in [''cone'', ''pyramid'', ''triangle''] text_lower then ''cone''
                 else if any_in [''torus'', ''donut'', ''ring''] text_lower then ''torus''
                 else ''sphere'');
          sz = (if any_in [''large'', ''big'', ''huge''] text_lower then 2.0
                else if any_in [''small'', ''tiny'', ''little''] text_lower then 0.5
                else 1.0)
      in \<lparr>shape = shp,
          size_of = sz,
          radius = sz,
          height = (if shp \<in> set [''cylinder'', ''cone''] then 2.5 else 2.0),
          color = find_similar_color text,
          position = origin,
          confidence = 0.7\<rparr>)"

text \<open>The instance as the first statements of \<^verbatim>\<open>__init__\<close> leave it: the estimators
  constructed, no training data, not trained.\<close>

definition init_model :: "estimators \<Rightarrow> text_to_cad_model" where
  "init_model est = \<lparr>trained = False, training_data = [], fitted = est\<rparr>"

definition predict :: "text_to_cad_model \<Rightarrow> string \<Rightarrow> obj" where
  "predict m text =
     (if \<not> trained m then rule_based_parse text
      else
        (let shp = shape_classifier (fitted m) text;
             conf = shape_proba (fitted m) text;
             sz = size_predictor (fitted m) text;
             rad = radius_predictor (fitted m) text;
             hgt = height_predictor (fitted m) text;
             col = find_similar_color text
         in \<lparr>shape = shp,
             size_of = max 0.1 sz,
             radius = max 0.1 rad,
             height = max 0.1 hgt,
             color = col,
             position = origin,
             confidence = conf\<rparr>))"

subsection \<open>The parser: \<^verbatim>\<open>MultiObjectParser\<close>\<close>

definition multi_indicators :: "regex list" where
  "multi_indicators =
     [seqs [Plus Digit, Plus Space,
            Group (alts [Lit ''spheres'', Lit ''cubes'', Lit ''cylinders'', Lit ''cones''])],
      seqs [Lit ''and'', Plus Space, alts [Lit ''a'', Lit ''an'']],
      seqs [Lit ''with'', Plus Space, alts [Lit ''a'', Lit ''an'', Plus Digit]],
      Lit ''stack'', Lit ''multiple'', Lit ''several'',
      Lit ''above'', Lit ''below'', Lit ''next to'', Lit ''on top'']"

definition is_multi_object :: "string \<Rightarrow> bool" where
  "is_multi_object text = list_ex (\<lambda>pattern. search pattern text \<noteq> None) multi_indicators"

text \<open>\<^verbatim>\<open>(\d+)\s+(sphere|cube|cylinder|cone|torus|ball|box|tube)s?\<close>\<close>

definition quantity_pattern :: regex where
  "quantity_pattern =
     seqs [Group (Plus Digit), Plus Space,
           Group (alts [Lit ''sphere'', Lit ''cube'', Lit ''cylinder'', Lit ''cone'',
                        Lit ''torus'', Lit ''ball'', Lit ''box'', Lit ''tube'']),
           Opt (Lit ''s'')]"

text \<open>\<^verbatim>\<open>stack\s+(\d+)\s+(\w+)\<close>\<close>

definition stack_pattern :: regex where
  "stack_pattern =
     seqs [Lit ''stack'', Plus Space, Group (Plus Digit), Plus Space, Group (Plus Word)]"

definition composite_shapes :: "(string \<times> (string \<times> xyz \<times> real) list) list" where
  "composite_shapes =
     [(''house'',
         [(''cube walls'', \<lparr>pos_x = 0, pos_y = 0, pos_z = 0\<rparr>, 3.0),
          (''cone roof'', \<lparr>pos_x = 0, pos_y = 2, pos_z = 0\<rparr>, 1.5)]),
      (''table'',
         [(''cube top'', \<lparr>pos_x = 0, pos_y = 2, pos_z = 0\<rparr>, 1.0),
          (''cylinder leg'', \<lparr>pos_x = - 1.5, pos_y = 0, pos_z = - 1.5\<rparr>, 0.3),
          (''cylinder leg'', \<lparr>pos_x = 1.5, pos_y = 0, pos_z = - 1.5\<rparr>, 0.3),
          (''cylinder leg'', \<lparr>pos_x = - 1.5, pos_y = 0, pos_z = 1.5\<rparr>, 0.3),
          (''cylinder leg'', \<lparr>pos_x = 1.5, pos_y = 0, pos_z = 1.5\<rparr>, 0.3)]),
      (''snowman'',
         [(''large sphere'', \<lparr>pos_x = 0, pos_y = 0, pos_z = 0\<rparr>, 2.0),
          (''sphere'', \<lparr>pos_x = 0, pos_y = 2.5, pos_z = 0\<rparr>, 1.5),
          (''small sphere'', \<lparr>pos_x = 0, pos_y = 4.2, pos_z = 0\<rparr>, 1.0)])]"

text \<open>Pattern 1: one object for each piece between the separators, spread along X.\<close>

definition and_objects :: "text_to_cad_model \<Rightarrow> string list \<Rightarrow> obj list" where
  "and_objects m parts =
     map (\<lambda>(i, part). (predict m (strip part))
            \<lparr>position := \<lparr>pos_x = real (i * 2), pos_y = 0, pos_z = 0\<rparr>\<rparr>)
         (enumerate 0 parts)"

text \<open>Pattern 2: \<^verbatim>\<open>for i in range(min(count, 10))\<close>, a row along X.\<close>

definition quantity_objects :: "text_to_cad_model \<Rightarrow> string \<Rightarrow> int \<Rightarrow> obj list" where
  "quantity_objects m shape_text count =
     map (\<lambda>i. (predict m shape_text)
            \<lparr>position := \<lparr>pos_x = of_int (int i * 2 - count), pos_y = 0, pos_z = 0\<rparr>\<rparr>)
         [0 ..< nat (min count 10)]"

text \<open>Pattern 3: the parts of the first composite whose name occurs in the text.\<close>

definition composite_part :: "text_to_cad_model \<Rightarrow> string \<times> xyz \<times> real \<Rightarrow> obj" where
  "composite_part m = (\<lambda>(part_text, pos, size_mult).
     (let ob = predict m part_text;
          ob = ob\<lparr>position := pos\<rparr>;
          ob = ob\<lparr>size_of := size_of ob * size_mult\<rparr>;
          ob = ob\<lparr>radius := radius ob * size_mult\<rparr>
      in ob))"

fun composite_objects ::
  "text_to_cad_model \<Rightarrow> (string \<times> (string \<times> xyz \<times> real) list) list \<Rightarrow> string \<Rightarrow> obj list option" where
  "composite_objects m [] text = None"
| "composite_objects m ((composite_name, parts) # rest) text =
     (if str_in composite_name text then Some (map (composite_part m) parts)
      else composite_objects m rest text)"

text \<open>Pattern 4: \<open>n\<close> iterations of the stacking loop, \<open>y_offset\<close> being the loop's variable.\<close>

fun stack_objects :: "text_to_cad_model \<Rightarrow> string \<Rightarrow> nat \<Rightarrow> real \<Rightarrow> obj list" where
  "stack_objects m shape_text 0 y_offset = []"
| "stack_objects m shape_text (Suc n) y_offset =
     (let ob = predict m shape_text;
          ob = ob\<lparr>position := \<lparr>pos_x = 0, pos_y = y_offset, pos_z = 0\<rparr>\<rparr>
      in ob # stack_objects m shape_text n (y_offset + size_of ob * 2))"

definition extract_multiple_objects :: "text_to_cad_model \<Rightarrow> string \<Rightarrow> py_error + obj list" where
  "extract_multiple_objects m text =
     (if str_in '' and '' text then Inr (and_objects m (split text '' and ''))
      else
        case search quantity_pattern text of
          Some quantity_match \<Rightarrow>
            (case match_group quantity_match 1 of Inl e \<Rightarrow> Inl e | Inr d \<Rightarrow>
            (case py_int d of Inl e \<Rightarrow> Inl e | Inr count \<Rightarrow>
            (case match_group quantity_match 2 of Inl e \<Rightarrow> Inl e | Inr shape_text \<Rightarrow>
               Inr (quantity_objects m shape_text count))))
        | None \<Rightarrow>
            (case composite_objects m composite_shapes text of
               Some objects \<Rightarrow> Inr objects
             | None \<Rightarrow>
                 (case search stack_pattern text of
                    Some stack_match \<Rightarrow>
                      (case match_group stack_match 1 of Inl e \<Rightarrow> Inl e | Inr d \<Rightarrow>
                      (case py_int d of Inl e \<Rightarrow> Inl e | Inr count \<Rightarrow>
                      (case match_group stack_match 2 of Inl e \<Rightarrow> Inl e | Inr shape_text \<Rightarrow>
                         Inr (stack_objects m shape_text (nat (min count 10)) 0))))
                  | None \<Rightarrow> Inr [predict m text])))"

definition parse :: "text_to_cad_model \<Rightarrow> string \<Rightarrow> py_error + obj list" where
  "parse m text =
     (let text_lower = lower text in
      if is_multi_object text_lower then extract_multiple_objects m text_lower
      else Inr [predict m text])"

subsection \<open>The HTTP handlers\<close>

text \<open>Python's truth value of a JSON value, and the name of its type.\<close>

fun truthy :: "json \<Rightarrow> bool" where
  "truthy JNull = False"
| "truthy (JBool b) = b"
| "truthy (JInt i) = (i \<noteq> 0)"
| "truthy (JFloat r) = (r \<noteq> 0)"
| "truthy (JStr s) = (s \<noteq> [])"
| "truthy (JArr xs) = (xs \<noteq> [])"
| "truthy (JObj d) = (d \<noteq> [])"

fun type_name :: "json \<Rightarrow> string" where
  "type_name JNull = ''NoneType''"
| "type_name (JBool b) = ''bool''"
| "type_name (JInt i) = ''int''"
| "type_name (JFloat r) = ''float''"
| "type_name (JStr s) = ''str''"
| "type_name (JArr xs) = ''list''"
| "type_name (JObj d) = ''dict''"

text \<open>\<^verbatim>\<open>data.get(key, default)\<close>: only a dictionary has the method.\<close>

fun dict_get :: "json \<Rightarrow> string \<Rightarrow> json \<Rightarrow> py_error + json" where
  "dict_get (JObj d) key dflt = Inr (case map_of d key of Some v \<Rightarrow> v | None \<Rightarrow> dflt)"
| "dict_get v key dflt = Inl (AttributeError (type_name v) ''get'')"

text \<open>\<^verbatim>\<open>d[key]\<close>\<close>

fun item :: "json \<Rightarrow> string \<Rightarrow> py_error + json" where
  "item (JObj d) key = (case map_of d key of Some v \<Rightarrow> Inr v | None \<Rightarrow> Inl (KeyError key))"
| "item v key = Inl (TypeError (type_name v))"

text \<open>\<^verbatim>\<open>[d[key] for d in training_data]\<close>\<close>

fun column :: "string \<Rightarrow> json list \<Rightarrow> py_error + json list" where
  "column key [] = Inr []"
| "column key (d # ds) =
     (case item d key of Inl e \<Rightarrow> Inl e | Inr v \<Rightarrow>
     (case column key ds of Inl e \<Rightarrow> Inl e | Inr vs \<Rightarrow> Inr (v # vs)))"

text \<open>
  The calls into scikit-learn that \<^verbatim>\<open>train_models\<close> makes. \<open>fit_estimators\<close> is the
  vectorizer's \<^verbatim>\<open>fit_transform\<close> and the four \<^verbatim>\<open>fit\<close> calls that follow it: from the
  estimators as they are and the five columns, the estimators as these calls leave them
  and the exception one of them raised, if any. \<open>fit_clusterer\<close> is the fit of the
  position clusterer, which no prediction reads: only whether it raised.
\<close>

record sklearn =
  fit_estimators ::
    "estimators \<Rightarrow> json list \<Rightarrow> json list \<Rightarrow> json list \<Rightarrow> json list \<Rightarrow> json list
       \<Rightarrow> estimators \<times> py_error option"
  fit_clusterer :: "json list \<Rightarrow> py_error option"

text \<open>\<^verbatim>\<open>train_models\<close>: the instance afterwards, and the exception raised, if any.\<close>

definition train_models ::
  "sklearn \<Rightarrow> text_to_cad_model \<Rightarrow> text_to_cad_model \<times> py_error option" where
  "train_models sk m =
     (if length (training_data m) < 5 then (m, None)
      else
       (case column ''text'' (training_data m) of Inl e \<Rightarrow> (m, Some e) | Inr texts \<Rightarrow>
       (case column ''shape'' (training_data m) of Inl e \<Rightarrow> (m, Some e) | Inr shapes \<Rightarrow>
       (case column ''size'' (training_data m) of Inl e \<Rightarrow> (m, Some e) | Inr sizes \<Rightarrow>
       (case column ''radius'' (training_data m) of Inl e \<Rightarrow> (m, Some e) | Inr radii \<Rightarrow>
       (case column ''height'' (training_data m) of Inl e \<Rightarrow> (m, Some e) | Inr heights \<Rightarrow>
       (case fit_estimators sk (fitted m) texts shapes sizes radii heights of
          (est, Some e) \<Rightarrow> (m\<lparr>fitted := est\<rparr>, Some e)
        | (est, None) \<Rightarrow>
           (case column ''position'' (training_data m) of
              Inl e \<Rightarrow> (m\<lparr>fitted := est\<rparr>, Some e)
            | Inr positions \<Rightarrow>
               (case fit_clusterer sk positions of
                  Some e \<Rightarrow> (m\<lparr>fitted := est\<rparr>, Some e)
                | None \<Rightarrow> (m\<lparr>fitted := est, trained := True\<rparr>, None))))))))))"

text \<open>
  The process: the global \<^verbatim>\<open>model\<close> and the file \<^verbatim>\<open>training_data.json\<close> (\<open>None\<close> while it
  does not exist). The global \<^verbatim>\<open>parser\<close> holds the same \<^verbatim>\<open>model\<close> object.
\<close>

record server =
  model :: text_to_cad_model
  training_file :: "json list option"

text \<open>\<^verbatim>\<open>save_training_data\<close>\<close>

definition save_training_data :: "server \<Rightarrow> server" where
  "save_training_data s = s\<lparr>training_file := Some (training_data (model s))\<rparr>"

text \<open>
  The body of a response, before \<^verbatim>\<open>jsonify\<close>: \<open>ErrorBody msg\<close> is \<^verbatim>\<open>{"error": msg}\<close>,
  \<open>ExceptionBody e\<close> is \<^verbatim>\<open>{"error": str(e)}\<close>, \<open>ParseBody objects count interpretation
  ml_powered\<close>, \<open>HealthBody status models_trained training_examples\<close> and
  \<open>RetrainBody status total_examples\<close> are the three dictionaries of the handlers.
\<close>

datatype body =
    ErrorBody string
  | ExceptionBody py_error
  | ParseBody "obj list" nat string bool
  | HealthBody string bool nat
  | RetrainBody string nat

text \<open>\<^verbatim>\<open>str(n)\<close> for a length.\<close>

fun str_nat :: "nat \<Rightarrow> string" where
  "str_nat n = (if n < 10 then [digits ! n] else str_nat (n div 10) @ [digits ! (n mod 10)])"

text \<open>\<^verbatim>\<open>parser.parse(text)\<close> on the value the request carries: a value that is no string has
  no method \<^verbatim>\<open>lower\<close>.\<close>

fun parser_parse :: "text_to_cad_model \<Rightarrow> json \<Rightarrow> py_error + obj list" where
  "parser_parse m (JStr text) = parse m text"
| "parser_parse m v = Inl (AttributeError (type_name v) ''lower'')"

text \<open>
  \<^verbatim>\<open>parse_text\<close>, on the value of \<^verbatim>\<open>request.json\<close>. The result is the status, the body, and
  the list of the values the handler passed to \<^verbatim>\<open>parser.parse\<close> (the handler reaches the
  predictor through this call only).
\<close>

definition parse_text :: "server \<Rightarrow> json \<Rightarrow> nat \<times> body \<times> json list" where
  "parse_text s data =
     (case dict_get data ''text'' (JStr []) of
        Inl e \<Rightarrow> (500, ExceptionBody e, [])
      | Inr text \<Rightarrow>
          if \<not> truthy text then (400, ErrorBody ''No text provided'', [])
          else
            (case parser_parse (model s) text of
               Inl e \<Rightarrow> (500, ExceptionBody e, [text])
             | Inr objects \<Rightarrow>
                 (200,
                  ParseBody objects (length objects)
                    (''Generated '' @ str_nat (length objects) @ '' object(s)'')
                    (trained (model s)),
                  [text])))"

definition health :: "server \<Rightarrow> nat \<times> body" where
  "health s = (200, HealthBody ''healthy'' (trained (model s)) (length (training_data (model s))))"

text \<open>\<^verbatim>\<open>retrain\<close>, on the value of \<^verbatim>\<open>request.json\<close>: the response and the process afterwards.
  The append has happened when \<^verbatim>\<open>train_models\<close> raises.\<close>

definition retrain :: "sklearn \<Rightarrow> server \<Rightarrow> json \<Rightarrow> (nat \<times> body) \<times> server" where
  "retrain sk s data =
     (case dict_get data ''example'' JNull of
        Inl e \<Rightarrow> ((500, ExceptionBody e), s)
      | Inr new_example \<Rightarrow>
          if truthy new_example then
            (let m1 = (model s)\<lparr>training_data := training_data (model s) @ [new_example]\<rparr> in
             case train_models sk m1 of
               (m2, Some e) \<Rightarrow> ((500, ExceptionBody e), s\<lparr>model := m2\<rparr>)
             | (m2, None) \<Rightarrow>
                 (let s2 = save_training_data (s\<lparr>model := m2\<rparr>) in
                  ((200, RetrainBody ''retrained'' (length (training_data (model s2)))), s2)))
          else ((200, RetrainBody ''retrained'' (length (training_data (model s)))), s))"

text \<open>A session: the requests the process serves, one after the other.\<close>

datatype request = ParseText json | Health | Retrain json

fun serve :: "sklearn \<Rightarrow> server \<Rightarrow> request \<Rightarrow> (nat \<times> body) \<times> server" where
  "serve sk s (ParseText data) = (case parse_text s data of (st, b, _) \<Rightarrow> ((st, b), s))"
| "serve sk s Health = (health s, s)"
| "serve sk s (Retrain data) = retrain sk s data"

fun session :: "sklearn \<Rightarrow> server \<Rightarrow> request list \<Rightarrow> server" where
  "session sk s [] = s"
| "session sk s (r # rs) = session sk (snd (serve sk s r)) rs"

subsection \<open>Notions used in the proofs\<close>

text \<open>The language of a pattern: the texts it matches, whatever the groups.\<close>

fun lang :: "regex \<Rightarrow> string set" where
  "lang Eps = {[]}"
| "lang (Lit w) = {w}"
| "lang (Plus k) = {u. u \<noteq> [] \<and> (\<forall>c \<in> set u. in_class k c)}"
| "lang (Alt a b) = lang a \<union> lang b"
| "lang (Seq a b) = {u @ v | u v. u \<in> lang a \<and> v \<in> lang b}"
| "lang (Opt a) = insert [] (lang a)"
| "lang (Group a) = lang a"

text \<open>The number of capturing groups of a pattern.\<close>

fun ngroups :: "regex \<Rightarrow> nat" where
  "ngroups Eps = 0"
| "ngroups (Lit w) = 0"
| "ngroups (Plus k) = 0"
| "ngroups (Alt a b) = max (ngroups a) (ngroups b)"
| "ngroups (Seq a b) = ngroups a + ngroups b"
| "ngroups (Opt a) = ngroups a"
| "ngroups (Group a) = Suc (ngroups a)"

text \<open>\<open>needs f r\<close>: by the shape of \<open>r\<close>, every text that \<open>r\<close> matches has a character
  of \<open>f\<close>.\<close>

fun needs :: "string \<Rightarrow> regex \<Rightarrow> bool" where
  "needs f Eps = False"
| "needs f (Lit w) = list_ex (\<lambda>c. c \<in> set f) w"
| "needs f (Plus k) = False"
| "needs f (Alt a b) = (needs f a \<and> needs f b)"
| "needs f (Seq a b) = (needs f a \<or> needs f b)"
| "needs f (Opt a) = False"
| "needs f (Group a) = needs f a"

text \<open>Letters such that every indicator of \<open>multi_indicators\<close> needs one of them.\<close>

definition indicator_letters :: string where
  "indicator_letters = ''chnwkmv''"

section \<open>Properties\<close>

subsection \<open>Evaluation helpers\<close>

lemma match_group_1: "match_group (a # g) (Suc 0) = Inr a"
  by (simp add: match_group_def)

lemma match_group_2: "match_group [a, b] 2 = Inr b"
  by (simp add: match_group_def)

lemma upt_0_3: "[0..<3] = [0, 1, 2]"
  by code_simp

lemma py_int_3: "py_int ''3'' = Inr 3"
  by (simp add: py_int_def digits_def digit_val_def int_max_str_digits_def)

text \<open>The no-break space is white space for \<^verbatim>\<open>\s\<close>, and a letter with an accent is a word
  character for \<^verbatim>\<open>\w\<close>.\<close>

lemma quantity_no_break_space:
  "search quantity_pattern (''stack 12 foo 3'' @ [CHR 0xA0] @ ''cubes'') = Some [''3'', ''cube'']"
  by code_simp

lemma stack_accented_word:
  "search stack_pattern (''stack 2 caf'' @ [CHR 0xE9]) = Some [''2'', ''caf'' @ [CHR 0xE9]]"
  by code_simp

lemma lower_accented: "lower (''CAF'' @ [CHR 0xC9]) = ''caf'' @ [CHR 0xE9]"
  by code_simp

subsection \<open>The predictor's dimensions\<close>

lemma max_tenth: "(0.1::real) \<le> max 0.1 v"
  by simp

lemma predict_trained:
  assumes "trained m"
  shows "predict m text =
      \<lparr>shape = shape_classifier (fitted m) text,
       size_of = max 0.1 (size_predictor (fitted m) text),
       radius = max 0.1 (radius_predictor (fitted m) text),
       height = max 0.1 (height_predictor (fitted m) text),
       color = find_similar_color text, position = origin,
       confidence = shape_proba (fitted m) text\<rparr>"
  using assms by (simp add: predict_def Let_def)

lemma predict_untrained: "\<not> trained m \<Longrightarrow> predict m text = rule_based_parse text"
  by (simp add: predict_def)

text \<open>
  C6. For every text and every state of the predictor, the size, the radius and the height
  that \<open>predict\<close> returns are at least 0.1. In the statistical mode each of them is the
  raw output of its estimator, raised to 0.1 when it is smaller; the rule-based mode
  returns sizes among 2.0, 0.5 and 1.0 and heights among 2.5 and 2.0.
\<close>

theorem predict_min_dimensions:
  "0.1 \<le> size_of (predict m text) \<and> 0.1 \<le> radius (predict m text) \<and>
   0.1 \<le> height (predict m text) \<and>
   (trained m \<longrightarrow>
      size_of (predict m text) = max 0.1 (size_predictor (fitted m) text) \<and>
      radius (predict m text) = max 0.1 (radius_predictor (fitted m) text) \<and>
      height (predict m text) = max 0.1 (height_predictor (fitted m) text))"
proof (cases "trained m")
  case True
  show ?thesis
    unfolding predict_trained [OF True] using max_tenth by simp
next
  case False
  then show ?thesis
    by (simp add: predict_def rule_based_parse_def Let_def)
qed

theorem predict_min_dimensions_witness:
  "size_of (predict ((init_model
       \<lparr>shape_classifier = (\<lambda>t. ''cube''), shape_proba = (\<lambda>t. 1),
        size_predictor = (\<lambda>t. - 5), radius_predictor = (\<lambda>t. 0),
        height_predictor = (\<lambda>t. 100)\<rparr>)\<lparr>trained := True\<rparr>) ''cube'') = 0.1 \<and>
   radius (predict ((init_model
       \<lparr>shape_classifier = (\<lambda>t. ''cube''), shape_proba = (\<lambda>t. 1),
        size_predictor = (\<lambda>t. - 5), radius_predictor = (\<lambda>t. 0),
        height_predictor = (\<lambda>t. 100)\<rparr>)\<lparr>trained := True\<rparr>) ''cube'') = 0.1 \<and>
   height (predict ((init_model
       \<lparr>shape_classifier = (\<lambda>t. ''cube''), shape_proba = (\<lambda>t. 1),
        size_predictor = (\<lambda>t. - 5), radius_predictor = (\<lambda>t. 0),
        height_predictor = (\<lambda>t. 100)\<rparr>)\<lparr>trained := True\<rparr>) ''cube'') = 100"
  using predict_min_dimensions [of "(init_model
       \<lparr>shape_classifier = (\<lambda>t. ''cube''), shape_proba = (\<lambda>t. 1),
        size_predictor = (\<lambda>t. - 5), radius_predictor = (\<lambda>t. 0),
        height_predictor = (\<lambda>t. 100)\<rparr>)\<lparr>trained := True\<rparr>" "''cube''"]
  by (simp add: init_model_def)

subsection \<open>The colour\<close>

lemma first_color_none:
  "\<forall>p \<in> set cm. \<not> str_in (fst p) t \<Longrightarrow> first_color cm t = None"
  by (induction cm) auto

lemma color_predict: "color (predict m text) = find_similar_color text"
  by (simp add: predict_def rule_based_parse_def Let_def)

lemma first_color_split:
  assumes "cm = before @ (name, rgb) # after" "str_in name t"
    "\<forall>p \<in> set before. \<not> str_in (fst p) t"
  shows "first_color cm t = Some rgb"
  using assms by (induction before arbitrary: cm) auto

text \<open>
  C7. In both modes the colour of a prediction is \<open>find_similar_color\<close> of the text. When
  a colour name occurs in the lower-cased text and no name declared before it in
  \<open>color_map\<close> does, the colour is that name's value; when no name of \<open>color_map\<close>
  occurs, it is the default \<^verbatim>\<open>0x667eea\<close>.
\<close>

theorem color_resolution:
  "color (predict m text) = find_similar_color text \<and>
   (color_map = before @ (name, rgb) # after \<and> str_in name (lower text) \<and>
    (\<forall>p \<in> set before. \<not> str_in (fst p) (lower text)) \<longrightarrow>
      find_similar_color text = rgb) \<and>
   ((\<forall>p \<in> set color_map. \<not> str_in (fst p) (lower text)) \<longrightarrow>
      find_similar_color text = 0x667eea)"
proof (intro conjI impI)
  show "color (predict m text) = find_similar_color text" by (rule color_predict)
next
  assume "color_map = before @ (name, rgb) # after \<and> str_in name (lower text) \<and>
    (\<forall>p \<in> set before. \<not> str_in (fst p) (lower text))"
  then have "first_color color_map (lower text) = Some rgb"
    by (intro first_color_split [of _ before name rgb after]) simp_all
  then show "find_similar_color text = rgb"
    by (simp add: find_similar_color_def Let_def)
next
  assume "\<forall>p \<in> set color_map. \<not> str_in (fst p) (lower text)"
  then have "first_color color_map (lower text) = None" by (rule first_color_none)
  then show "find_similar_color text = 0x667eea"
    by (simp add: find_similar_color_def Let_def)
qed

lemma red_first: "color_map = [] @ (''red'', 0xff4444) # tl color_map"
  by (simp add: color_map_def)

lemma red_in_text: "str_in ''red'' (lower ''a BLUE and red ball'')"
  by code_simp

lemma color_names:
  "map fst color_map =
     [''red'', ''blue'', ''green'', ''yellow'', ''purple'', ''orange'', ''cyan'', ''white'',
      ''black'', ''pink'', ''brown'', ''gray'', ''grey'']"
  by (simp add: color_map_def)

lemma list_all_map_fst: "list_all P (map fst xs) \<Longrightarrow> \<forall>p \<in> set xs. P (fst p)"
  by (simp add: list_all_iff)

lemma no_color_in_cube: "list_all (\<lambda>n. \<not> str_in n (lower ''cube'')) (map fst color_map)"
  unfolding color_names by code_simp

theorem color_resolution_witness:
  "color (predict ((init_model
       \<lparr>shape_classifier = (\<lambda>t. ''cube''), shape_proba = (\<lambda>t. 1),
        size_predictor = (\<lambda>t. 1), radius_predictor = (\<lambda>t. 1),
        height_predictor = (\<lambda>t. 2)\<rparr>)\<lparr>trained := True\<rparr>) ''a BLUE and red ball'') = 0xff4444 \<and>
   color (predict (init_model
       \<lparr>shape_classifier = (\<lambda>t. ''cube''), shape_proba = (\<lambda>t. 1),
        size_predictor = (\<lambda>t. 1), radius_predictor = (\<lambda>t. 1),
        height_predictor = (\<lambda>t. 2)\<rparr>) ''cube'') = 0x667eea"
proof -
  let ?e = "\<lparr>shape_classifier = (\<lambda>t. ''cube''), shape_proba = (\<lambda>t. 1),
        size_predictor = (\<lambda>t. 1), radius_predictor = (\<lambda>t. 1),
        height_predictor = (\<lambda>t. 2)\<rparr>"
  note a = color_resolution [of "(init_model ?e)\<lparr>trained := True\<rparr>" "''a BLUE and red ball''"
      "[]" "''red''" "0xff4444" "tl color_map"]
  note b = color_resolution [of "init_model ?e" "''cube''"]
  have pre: "color_map = [] @ (''red'', 0xff4444) # tl color_map \<and>
      str_in ''red'' (lower ''a BLUE and red ball'') \<and>
      (\<forall>p \<in> set []. \<not> str_in (fst p) (lower ''a BLUE and red ball''))"
    by (intro conjI red_first red_in_text) simp
  have a1: "color (predict ((init_model ?e)\<lparr>trained := True\<rparr>) ''a BLUE and red ball'') =
      find_similar_color ''a BLUE and red ball''"
    by (rule conjunct1 [OF a])
  have a2: "find_similar_color ''a BLUE and red ball'' = 0xff4444"
    by (rule mp [OF conjunct1 [OF conjunct2 [OF a]] pre])
  have b1: "color (predict (init_model ?e) ''cube'') = find_similar_color ''cube''"
    by (rule conjunct1 [OF b])
  have none: "\<forall>p \<in> set color_map. \<not> str_in (fst p) (lower ''cube'')"
    using no_color_in_cube by (rule list_all_map_fst)
  have b2: "find_similar_color ''cube'' = 0x667eea"
    by (rule mp [OF conjunct2 [OF conjunct2 [OF b]] none])
  show ?thesis
    unfolding a1 a2 b1 b2 by (rule conjI) (rule refl)+
qed

subsection \<open>The matcher\<close>

lemma spans_sound:
  "r \<in> set (spans k s) \<Longrightarrow> \<exists>u. s = u @ r \<and> u \<noteq> [] \<and> (\<forall>c \<in> set u. in_class k c)"
proof (induction s)
  case Nil
  then show ?case by simp
next
  case (Cons c cs)
  from Cons.prems have c: "in_class k c" and r: "r \<in> set (spans k cs) \<or> r = cs"
    by (auto split: if_splits)
  from r show ?case
  proof
    assume "r \<in> set (spans k cs)"
    with Cons.IH obtain u where "cs = u @ r" "\<forall>c \<in> set u. in_class k c" by blast
    with c have "c # cs = (c # u) @ r \<and> c # u \<noteq> [] \<and> (\<forall>d \<in> set (c # u). in_class k d)" by simp
    then show ?thesis by blast
  next
    assume "r = cs"
    with c have "c # cs = [c] @ r \<and> [c] \<noteq> [] \<and> (\<forall>d \<in> set [c]. in_class k d)" by simp
    then show ?thesis by blast
  qed
qed

lemma spans_complete:
  "u \<noteq> [] \<Longrightarrow> \<forall>c \<in> set u. in_class k c \<Longrightarrow> r \<in> set (spans k (u @ r))"
proof (induction u)
  case Nil
  then show ?case by simp
next
  case (Cons c u)
  then show ?case by (cases u) auto
qed

lemma rmatch_Seq_elim:
  assumes "(g, r) \<in> set (rmatch (Seq a b) s)"
  obtains g1 r1 g2 where "(g1, r1) \<in> set (rmatch a s)" "(g2, r) \<in> set (rmatch b r1)" "g = g1 @ g2"
  using assms by auto

lemma rmatch_Seq_intro:
  "(g1, r1) \<in> set (rmatch a s) \<Longrightarrow> (g2, r) \<in> set (rmatch b r1) \<Longrightarrow>
   (g1 @ g2, r) \<in> set (rmatch (Seq a b) s)"
  by force

lemma rmatch_sound:
  "(g, r) \<in> set (rmatch re s) \<Longrightarrow> \<exists>u. s = u @ r \<and> u \<in> lang re"
proof (induction re arbitrary: g r s)
  case Eps
  then show ?case by simp
next
  case (Lit w)
  then show ?case by (auto simp: prefix_def split: if_splits)
next
  case (Plus k)
  then show ?case using spans_sound by auto
next
  case (Alt a b)
  from Alt.prems have "(g, r) \<in> set (rmatch a s) \<or> (g, r) \<in> set (rmatch b s)" by simp
  then show ?case
  proof
    assume "(g, r) \<in> set (rmatch a s)"
    from Alt.IH(1)[OF this] show ?thesis by auto
  next
    assume "(g, r) \<in> set (rmatch b s)"
    from Alt.IH(2)[OF this] show ?thesis by auto
  qed
next
  case (Seq a b)
  from Seq.prems obtain g1 r1 g2 where a: "(g1, r1) \<in> set (rmatch a s)" and b: "(g2, r) \<in> set (rmatch b r1)"
    by (rule rmatch_Seq_elim)
  from Seq.IH(1)[OF a] obtain u where u: "s = u @ r1" "u \<in> lang a" by blast
  from Seq.IH(2)[OF b] obtain v where v: "r1 = v @ r" "v \<in> lang b" by blast
  from u v have "s = (u @ v) @ r \<and> u @ v \<in> lang (Seq a b)" by auto
  then show ?case by blast
next
  case (Opt a)
  from Opt.prems have "(g, r) \<in> set (rmatch a s) \<or> r = s" by auto
  then show ?case
  proof
    assume "(g, r) \<in> set (rmatch a s)"
    from Opt.IH[OF this] show ?thesis by auto
  next
    assume "r = s"
    then show ?thesis by simp
  qed
next
  case (Group a)
  from Group.prems obtain g' where "(g', r) \<in> set (rmatch a s)" by auto
  from Group.IH[OF this] show ?case by simp
qed

lemma rmatch_complete:
  "u \<in> lang re \<Longrightarrow> \<exists>g. (g, r) \<in> set (rmatch re (u @ r))"
proof (induction re arbitrary: u r)
  case Eps
  then show ?case by simp
next
  case (Lit w)
  then show ?case by simp
next
  case (Plus k)
  then have "r \<in> set (spans k (u @ r))" using spans_complete by simp
  then have "([], r) \<in> set (rmatch (Plus k) (u @ r))" by simp
  then show ?case by blast
next
  case (Alt a b)
  from Alt.prems have "u \<in> lang a \<or> u \<in> lang b" by simp
  then show ?case
  proof
    assume "u \<in> lang a"
    from Alt.IH(1)[OF this, of r] show ?thesis by auto
  next
    assume "u \<in> lang b"
    from Alt.IH(2)[OF this, of r] show ?thesis by auto
  qed
next
  case (Seq a b)
  from Seq.prems obtain v w where uv: "u = v @ w" "v \<in> lang a" "w \<in> lang b" by auto
  from Seq.IH(1)[OF uv(2), of "w @ r"] obtain g1 where a: "(g1, w @ r) \<in> set (rmatch a (v @ w @ r))" by blast
  from Seq.IH(2)[OF uv(3), of r] obtain g2 where b: "(g2, r) \<in> set (rmatch b (w @ r))" by blast
  have "(g1 @ g2, r) \<in> set (rmatch (Seq a b) (v @ w @ r))"
    by (rule rmatch_Seq_intro [OF a b])
  then have "(g1 @ g2, r) \<in> set (rmatch (Seq a b) (u @ r))"
    unfolding uv(1) by (simp only: append_assoc)
  then show ?case by blast
next
  case (Opt a)
  from Opt.prems have "u = [] \<or> u \<in> lang a" by simp
  then show ?case
  proof
    assume "u = []"
    then show ?thesis by auto
  next
    assume "u \<in> lang a"
    from Opt.IH[OF this, of r] show ?thesis by auto
  qed
next
  case (Group a)
  from Group.prems have "u \<in> lang a" by simp
  from Group.IH[OF this, of r] obtain g where "(g, r) \<in> set (rmatch a (u @ r))" by blast
  then have "(u # g, r) \<in> set (rmatch (Group a) (u @ r))" by force
  then show ?case by blast
qed

lemma rmatch_ngroups: "(g, r) \<in> set (rmatch re s) \<Longrightarrow> length g \<le> ngroups re"
proof (induction re arbitrary: g r s)
  case (Seq a b)
  from Seq.prems obtain g1 r1 g2 where a: "(g1, r1) \<in> set (rmatch a s)" and b: "(g2, r) \<in> set (rmatch b r1)"
    and g: "g = g1 @ g2"
    by (rule rmatch_Seq_elim)
  from Seq.IH(1)[OF a] Seq.IH(2)[OF b] g show ?case by simp
next
  case (Alt a b)
  from Alt.prems have "(g, r) \<in> set (rmatch a s) \<or> (g, r) \<in> set (rmatch b s)" by simp
  then show ?case using Alt.IH by fastforce
next
  case (Opt a)
  from Opt.prems have "(g, r) \<in> set (rmatch a s) \<or> g = []" by auto
  then show ?case using Opt.IH by fastforce
next
  case (Group a)
  from Group.prems obtain g' where "(g', r) \<in> set (rmatch a s)" "g = take (length s - length r) s # g'" by auto
  then show ?case using Group.IH by fastforce
qed (auto split: if_splits)

lemma rmatch_no_groups: "ngroups re = 0 \<Longrightarrow> (g, r) \<in> set (rmatch re s) \<Longrightarrow> g = []"
  using rmatch_ngroups [of g r re s] by simp

lemma rmatch_Group_elim:
  assumes "(g, r) \<in> set (rmatch (Group a) s)"
  obtains g' where "(g', r) \<in> set (rmatch a s)" "g = take (length s - length r) s # g'"
  using assms by auto

lemma rmatch_Group_Plus:
  assumes "(g, r) \<in> set (rmatch (Group (Plus k)) s)"
  shows "\<exists>u. g = [u] \<and> u \<noteq> [] \<and> (\<forall>c \<in> set u. in_class k c)"
proof -
  from assms have r: "r \<in> set (spans k s)" and g: "g = [take (length s - length r) s]"
    by auto
  from spans_sound [OF r] obtain u where "s = u @ r" "u \<noteq> []" "\<forall>c \<in> set u. in_class k c"
    by blast
  with g show ?thesis by simp
qed

lemma rmatch_Group_flat:
  assumes "(g, r) \<in> set (rmatch (Group a) s)" "ngroups a = 0"
  shows "\<exists>w. g = [w]"
proof -
  from assms(1) obtain g' where g': "(g', r) \<in> set (rmatch a s)" "g = take (length s - length r) s # g'"
    by (rule rmatch_Group_elim)
  from rmatch_no_groups [OF assms(2) g'(1)] g'(2) show ?thesis by simp
qed

lemma quantity_groups:
  assumes "(g, r) \<in> set (rmatch quantity_pattern s)"
  shows "\<exists>d w. g = [d, w] \<and> d \<noteq> [] \<and> (\<forall>c \<in> set d. c \<in> set digits)"
proof -
  let ?nouns = "alts [Lit ''sphere'', Lit ''cube'', Lit ''cylinder'', Lit ''cone'',
                      Lit ''torus'', Lit ''ball'', Lit ''box'', Lit ''tube'']"
  have q: "quantity_pattern =
     Seq (Group (Plus Digit)) (Seq (Plus Space) (Seq (Group ?nouns) (Opt (Lit ''s''))))"
    by (simp add: quantity_pattern_def)
  from assms obtain g1 r1 g2 where
    a: "(g1, r1) \<in> set (rmatch (Group (Plus Digit)) s)" and
    b: "(g2, r) \<in> set (rmatch (Seq (Plus Space) (Seq (Group ?nouns) (Opt (Lit ''s'')))) r1)" and
    g: "g = g1 @ g2"
    unfolding q by (rule rmatch_Seq_elim)
  from b obtain g3 r3 g4 where
    c: "(g3, r3) \<in> set (rmatch (Plus Space) r1)" and
    d: "(g4, r) \<in> set (rmatch (Seq (Group ?nouns) (Opt (Lit ''s''))) r3)" and
    g2: "g2 = g3 @ g4"
    by (rule rmatch_Seq_elim)
  from d obtain g5 r5 g6 where
    e: "(g5, r5) \<in> set (rmatch (Group ?nouns) r3)" and
    f: "(g6, r) \<in> set (rmatch (Opt (Lit ''s'')) r5)" and
    g4: "g4 = g5 @ g6"
    by (rule rmatch_Seq_elim)
  from rmatch_Group_Plus [OF a] obtain u where
    u: "g1 = [u]" "u \<noteq> []" "\<forall>c \<in> set u. in_class Digit c" by blast
  have "g3 = []" using rmatch_no_groups [OF _ c] by simp
  moreover have "g6 = []" using rmatch_no_groups [OF _ f] by simp
  moreover obtain w where "g5 = [w]" using rmatch_Group_flat [OF e] by auto
  ultimately have "g = [u, w]" using g g2 g4 u(1) by simp
  with u show ?thesis by auto
qed

lemma stack_groups:
  assumes "(g, r) \<in> set (rmatch stack_pattern s)"
  shows "\<exists>d w. g = [d, w] \<and> d \<noteq> [] \<and> (\<forall>c \<in> set d. c \<in> set digits)"
proof -
  have q: "stack_pattern =
     Seq (Lit ''stack'') (Seq (Plus Space) (Seq (Group (Plus Digit))
       (Seq (Plus Space) (Group (Plus Word)))))"
    by (simp add: stack_pattern_def)
  from assms obtain g1 r1 g2 where
    a: "(g1, r1) \<in> set (rmatch (Lit ''stack'') s)" and
    b: "(g2, r) \<in> set (rmatch (Seq (Plus Space) (Seq (Group (Plus Digit))
          (Seq (Plus Space) (Group (Plus Word))))) r1)" and
    g: "g = g1 @ g2"
    unfolding q by (rule rmatch_Seq_elim)
  from b obtain g3 r3 g4 where
    c: "(g3, r3) \<in> set (rmatch (Plus Space) r1)" and
    d: "(g4, r) \<in> set (rmatch (Seq (Group (Plus Digit)) (Seq (Plus Space) (Group (Plus Word)))) r3)" and
    g2: "g2 = g3 @ g4"
    by (rule rmatch_Seq_elim)
  from d obtain g5 r5 g6 where
    e: "(g5, r5) \<in> set (rmatch (Group (Plus Digit)) r3)" and
    f: "(g6, r) \<in> set (rmatch (Seq (Plus Space) (Group (Plus Word))) r5)" and
    g4: "g4 = g5 @ g6"
    by (rule rmatch_Seq_elim)
  from f obtain g7 r7 g8 where
    h: "(g7, r7) \<in> set (rmatch (Plus Space) r5)" and
    i: "(g8, r) \<in> set (rmatch (Group (Plus Word)) r7)" and
    g6: "g6 = g7 @ g8"
    by (rule rmatch_Seq_elim)
  from rmatch_Group_Plus [OF e] obtain u where
    u: "g5 = [u]" "u \<noteq> []" "\<forall>c \<in> set u. in_class Digit c" by blast
  from rmatch_Group_Plus [OF i] obtain w where w: "g8 = [w]" by blast
  have "g1 = []" using rmatch_no_groups [OF _ a] by simp
  moreover have "g3 = []" using rmatch_no_groups [OF _ c] by simp
  moreover have "g7 = []" using rmatch_no_groups [OF _ h] by simp
  ultimately have "g = [u, w]" using g g2 g4 g6 u(1) w by simp
  with u show ?thesis by auto
qed

lemma search_Some_rmatch:
  "search re t = Some g \<Longrightarrow> \<exists>s r. (g, r) \<in> set (rmatch re s)"
proof (induction t)
  case Nil
  then obtain r rest where "rmatch re [] = (g, r) # rest"
    by (auto split: list.splits)
  then have "(g, r) \<in> set (rmatch re [])" by simp
  then show ?case by blast
next
  case (Cons c cs)
  show ?case
  proof (cases "rmatch re (c # cs)")
    case Nil
    with Cons show ?thesis by simp
  next
    case (Cons a rest)
    with Cons.prems obtain r where "rmatch re (c # cs) = (g, r) # rest"
      by (auto split: prod.splits)
    then have "(g, r) \<in> set (rmatch re (c # cs))" by simp
    then show ?thesis by blast
  qed
qed

lemma search_None_D:
  "search re t = None \<Longrightarrow> t = p @ s \<Longrightarrow> rmatch re s = []"
proof (induction t arbitrary: p)
  case Nil
  then show ?case by (simp split: list.splits prod.splits)
next
  case (Cons c cs)
  from Cons.prems(1) have here: "rmatch re (c # cs) = []" and rest: "search re cs = None"
    by (simp_all split: list.splits prod.splits)
  show ?case
  proof (cases p)
    case Nil
    with Cons.prems(2) here show ?thesis by simp
  next
    case (Cons a p')
    with Cons.prems(2) have "cs = p' @ s" by simp
    from Cons.IH [OF rest this] show ?thesis .
  qed
qed

lemma search_None_I:
  "(\<And>p s. t = p @ s \<Longrightarrow> rmatch re s = []) \<Longrightarrow> search re t = None"
proof (induction t)
  case Nil
  have "rmatch re [] = []" by (rule Nil) simp
  then show ?case by simp
next
  case (Cons c cs)
  have here: "rmatch re (c # cs) = []" by (rule Cons.prems) simp
  have "search re cs = None"
  proof (rule Cons.IH)
    fix p s
    assume "cs = p @ s"
    then have "c # cs = (c # p) @ s" by simp
    then show "rmatch re s = []" by (rule Cons.prems)
  qed
  with here show ?case by simp
qed

lemma search_iff:
  "search re t \<noteq> None \<longleftrightarrow> (\<exists>p u q. t = p @ u @ q \<and> u \<in> lang re)"
proof
  assume found: "search re t \<noteq> None"
  have "\<exists>p s. t = p @ s \<and> rmatch re s \<noteq> []"
  proof (rule ccontr)
    assume "\<not> (\<exists>p s. t = p @ s \<and> rmatch re s \<noteq> [])"
    then have "search re t = None" by (intro search_None_I) blast
    with found show False by simp
  qed
  then obtain p s where ps: "t = p @ s" "rmatch re s \<noteq> []" by blast
  then obtain g r where "(g, r) \<in> set (rmatch re s)" by (cases "rmatch re s") auto
  from rmatch_sound [OF this] obtain u where "s = u @ r" "u \<in> lang re" by blast
  with ps(1) show "\<exists>p u q. t = p @ u @ q \<and> u \<in> lang re" by blast
next
  assume "\<exists>p u q. t = p @ u @ q \<and> u \<in> lang re"
  then obtain p u q where t: "t = p @ u @ q" and u: "u \<in> lang re" by blast
  from rmatch_complete [OF u, of q] have ne: "rmatch re (u @ q) \<noteq> []" by auto
  show "search re t \<noteq> None"
  proof
    assume "search re t = None"
    from search_None_D [OF this t] ne show False by simp
  qed
qed

lemma str_in_iff: "str_in w t \<longleftrightarrow> (\<exists>p q. t = p @ w @ q)"
proof (induction t)
  case Nil
  then show ?case by auto
next
  case (Cons c cs)
  show ?case
  proof
    assume "str_in w (c # cs)"
    then consider "prefix w (c # cs)" | "str_in w cs" by auto
    then show "\<exists>p q. c # cs = p @ w @ q"
    proof cases
      case 1
      then obtain q where "c # cs = [] @ w @ q" by (auto simp: prefix_def)
      then show ?thesis by blast
    next
      case 2
      with Cons.IH obtain p q where "cs = p @ w @ q" by blast
      then have "c # cs = (c # p) @ w @ q" by simp
      then show ?thesis by blast
    qed
  next
    assume "\<exists>p q. c # cs = p @ w @ q"
    then obtain p q where pq: "c # cs = p @ w @ q" by blast
    show "str_in w (c # cs)"
    proof (cases p)
      case Nil
      with pq have "prefix w (c # cs)" by (simp add: prefix_def)
      then show ?thesis by simp
    next
      case (Cons a p')
      with pq have "cs = p' @ w @ q" by simp
      with Cons.IH have "str_in w cs" by blast
      then show ?thesis by simp
    qed
  qed
qed

lemma needs_sound: "needs f re \<Longrightarrow> u \<in> lang re \<Longrightarrow> \<exists>c \<in> set u. c \<in> set f"
proof (induction re arbitrary: u)
  case (Lit w)
  then show ?case by (auto simp: list_ex_iff)
next
  case (Seq a b)
  from Seq.prems(2) obtain v w where u: "u = v @ w" "v \<in> lang a" "w \<in> lang b" by auto
  from Seq.prems(1) have "needs f a \<or> needs f b" by simp
  then show ?case
  proof
    assume "needs f a"
    from Seq.IH(1) [OF this u(2)] u(1) show ?thesis by auto
  next
    assume "needs f b"
    from Seq.IH(2) [OF this u(3)] u(1) show ?thesis by auto
  qed
next
  case (Alt a b)
  from Alt.prems(2) have "u \<in> lang a \<or> u \<in> lang b" by simp
  with Alt.prems(1) Alt.IH show ?case by auto
next
  case (Group a)
  with Group.IH show ?case by simp
qed simp_all

lemma hd_indicator:
  "hd multi_indicators =
     Seq (Plus Digit) (Seq (Plus Space)
       (Group (Alt (Lit ''spheres'') (Alt (Lit ''cubes'') (Alt (Lit ''cylinders'') (Lit ''cones''))))))"
  by (simp add: multi_indicators_def)

lemma lang_Seq_iff: "u \<in> lang (Seq a b) \<longleftrightarrow> (\<exists>v w. u = v @ w \<and> v \<in> lang a \<and> w \<in> lang b)"
  by auto

lemma lang_plurals:
  "n \<in> lang (Group (Alt (Lit ''spheres'') (Alt (Lit ''cubes'') (Alt (Lit ''cylinders'') (Lit ''cones''))))) \<longleftrightarrow>
   n \<in> set [''spheres'', ''cubes'', ''cylinders'', ''cones'']"
  by (simp del: set_simps) auto

lemma lang_count_indicator:
  "u \<in> lang (hd multi_indicators) \<longleftrightarrow>
     (\<exists>d w n. u = d @ w @ n \<and>
        d \<noteq> [] \<and> (\<forall>c \<in> set d. c \<in> set digits) \<and>
        w \<noteq> [] \<and> (\<forall>c \<in> set w. c \<in> set whitespace) \<and>
        n \<in> set [''spheres'', ''cubes'', ''cylinders'', ''cones''])"
  (is "?L \<longleftrightarrow> ?R")
proof
  assume ?L
  then obtain d r where d: "u = d @ r" "d \<in> lang (Plus Digit)"
    and r: "r \<in> lang (Seq (Plus Space)
       (Group (Alt (Lit ''spheres'') (Alt (Lit ''cubes'') (Alt (Lit ''cylinders'') (Lit ''cones''))))))"
    unfolding hd_indicator lang_Seq_iff [of u] by blast
  from r obtain w n where w: "r = w @ n" "w \<in> lang (Plus Space)"
    and n: "n \<in> lang (Group (Alt (Lit ''spheres'') (Alt (Lit ''cubes'') (Alt (Lit ''cylinders'') (Lit ''cones'')))))"
    unfolding lang_Seq_iff [of r] by blast
  from n have "n \<in> set [''spheres'', ''cubes'', ''cylinders'', ''cones'']"
    by (simp only: lang_plurals)
  moreover from d(2) have "d \<noteq> [] \<and> (\<forall>c \<in> set d. c \<in> set digits)" by simp
  moreover from w(2) have "w \<noteq> [] \<and> (\<forall>c \<in> set w. c \<in> set whitespace)" by simp
  moreover from d(1) w(1) have "u = d @ w @ n" by simp
  ultimately show ?R by blast
next
  assume ?R
  then obtain d w n where u: "u = d @ w @ n"
    and d: "d \<noteq> []" "\<forall>c \<in> set d. c \<in> set digits"
    and w: "w \<noteq> []" "\<forall>c \<in> set w. c \<in> set whitespace"
    and n: "n \<in> set [''spheres'', ''cubes'', ''cylinders'', ''cones'']"
    by blast
  from n have "n \<in> lang (Group (Alt (Lit ''spheres'') (Alt (Lit ''cubes'') (Alt (Lit ''cylinders'') (Lit ''cones'')))))"
    by (simp only: lang_plurals)
  moreover from w have "w \<in> lang (Plus Space)" by simp
  ultimately have "w @ n \<in> lang (Seq (Plus Space)
       (Group (Alt (Lit ''spheres'') (Alt (Lit ''cubes'') (Alt (Lit ''cylinders'') (Lit ''cones''))))))"
    unfolding lang_Seq_iff [of "w @ n"] by blast
  moreover from d have "d \<in> lang (Plus Digit)" by simp
  ultimately show ?L
    unfolding hd_indicator lang_Seq_iff [of u] using u by blast
qed

lemma count_indicator_iff:
  "search (hd multi_indicators) t \<noteq> None \<longleftrightarrow>
     (\<exists>p d w n q. t = p @ d @ w @ n @ q \<and>
        d \<noteq> [] \<and> (\<forall>c \<in> set d. c \<in> set digits) \<and>
        w \<noteq> [] \<and> (\<forall>c \<in> set w. c \<in> set whitespace) \<and>
        n \<in> set [''spheres'', ''cubes'', ''cylinders'', ''cones''])"
  (is "?L \<longleftrightarrow> ?R")
proof
  assume ?L
  then obtain p u q where t: "t = p @ u @ q" and u: "u \<in> lang (hd multi_indicators)"
    unfolding search_iff by blast
  from u obtain d w n where "u = d @ w @ n"
    "d \<noteq> []" "\<forall>c \<in> set d. c \<in> set digits"
    "w \<noteq> []" "\<forall>c \<in> set w. c \<in> set whitespace"
    "n \<in> set [''spheres'', ''cubes'', ''cylinders'', ''cones'']"
    unfolding lang_count_indicator by blast
  moreover from this(1) t have "t = p @ d @ w @ n @ q" by simp
  ultimately show ?R by blast
next
  assume ?R
  then obtain p d w n q where t: "t = p @ d @ w @ n @ q"
    and *: "d \<noteq> []" "\<forall>c \<in> set d. c \<in> set digits"
    "w \<noteq> []" "\<forall>c \<in> set w. c \<in> set whitespace"
    "n \<in> set [''spheres'', ''cubes'', ''cylinders'', ''cones'']"
    by blast
  from * have "d @ w @ n \<in> lang (hd multi_indicators)"
    unfolding lang_count_indicator by blast
  moreover from t have "t = p @ (d @ w @ n) @ q" by simp
  ultimately show ?L unfolding search_iff by blast
qed

lemma indicators_need_letters: "list_all (needs indicator_letters) multi_indicators"
  by code_simp

lemma letters_digits: "list_all (\<lambda>c. c \<notin> set indicator_letters) digits"
  by code_simp

lemma letters_whitespace: "list_all (\<lambda>c. c \<notin> set indicator_letters) whitespace"
  by code_simp

lemma letters_nouns:
  "list_all (list_all (\<lambda>c. c \<notin> set indicator_letters)) [''balls'', ''boxes'', ''tubes'', ''torus'']"
  by code_simp

lemma not_multi_without_letters:
  assumes "\<forall>c \<in> set t. c \<notin> set indicator_letters"
  shows "\<not> is_multi_object t"
proof
  assume "is_multi_object t"
  then obtain pattern where p: "pattern \<in> set multi_indicators" "search pattern t \<noteq> None"
    by (auto simp: is_multi_object_def list_ex_iff)
  from p(2) obtain a u b where t: "t = a @ u @ b" and u: "u \<in> lang pattern"
    unfolding search_iff by blast
  from indicators_need_letters p(1) have "needs indicator_letters pattern"
    by (simp add: list_all_iff)
  from needs_sound [OF this u] obtain c where c: "c \<in> set u" "c \<in> set indicator_letters"
    by blast
  from c(1) t have "c \<in> set t" by simp
  with assms have "c \<notin> set indicator_letters" by (rule bspec)
  from this c(2) show False by (rule notE)
qed

lemma lang_Seq_I: "v \<in> lang a \<Longrightarrow> w \<in> lang b \<Longrightarrow> v @ w \<in> lang (Seq a b)"
  by auto

lemma lang_alts_Lit: "ws \<noteq> [] \<Longrightarrow> lang (alts (map Lit ws)) = set ws"
proof (induction ws)
  case Nil
  then show ?case by simp
next
  case (Cons w ws)
  then show ?case by (cases ws) auto
qed

lemma lang_quantity:
  assumes "d \<noteq> []" "\<forall>c \<in> set d. c \<in> set digits" "w \<noteq> []" "\<forall>c \<in> set w. c \<in> set whitespace"
    and "n \<in> set [''sphere'', ''cube'', ''cylinder'', ''cone'', ''torus'', ''ball'', ''box'', ''tube'']"
  shows "d @ w @ n \<in> lang quantity_pattern"
proof -
  let ?ws = "[''sphere'', ''cube'', ''cylinder'', ''cone'', ''torus'', ''ball'', ''box'', ''tube'']"
  have q: "quantity_pattern =
     Seq (Group (Plus Digit)) (Seq (Plus Space) (Seq (Group (alts (map Lit ?ws))) (Opt (Lit ''s''))))"
    by (simp add: quantity_pattern_def)
  have "lang (alts (map Lit ?ws)) = set ?ws" by (rule lang_alts_Lit) simp
  with assms(5) have n: "n \<in> lang (Group (alts (map Lit ?ws)))" by (simp only: lang.simps)
  have e: "[] \<in> lang (Opt (Lit ''s''))" by simp
  from lang_Seq_I [OF n e] have 1: "n \<in> lang (Seq (Group (alts (map Lit ?ws))) (Opt (Lit ''s'')))"
    by (simp only: append_Nil2)
  from assms(3,4) have 2: "w \<in> lang (Plus Space)" by simp
  from assms(1,2) have 3: "d \<in> lang (Group (Plus Digit))" by simp
  show ?thesis unfolding q by (rule lang_Seq_I [OF 3 lang_Seq_I [OF 2 1]])
qed

subsection \<open>The conjunction \<^verbatim>\<open>"cube and sphere"\<close>\<close>

lemma lower_cube_and_sphere: "lower ''cube and sphere'' = ''cube and sphere''"
  by code_simp

lemma not_multi_cube_and_sphere: "is_multi_object ''cube and sphere'' = False"
  by code_simp

lemma split_cube_and_sphere: "split ''cube and sphere'' '' and '' = [''cube'', ''sphere'']"
  by code_simp

lemma and_in_cube_and_sphere: "str_in '' and '' ''cube and sphere''"
  by code_simp

lemma strip_cube: "strip ''cube'' = ''cube''"
  by code_simp

lemma strip_sphere: "strip ''sphere'' = ''sphere''"
  by code_simp

text \<open>Pattern 1 of the extraction, had the parser called it on this text, gives the two
  objects: the predictions for \<^verbatim>\<open>"cube"\<close> and \<^verbatim>\<open>"sphere"\<close> at X = 0 and X = 2.\<close>

lemma extract_cube_and_sphere:
  "extract_multiple_objects m ''cube and sphere'' =
     Inr [(predict m ''cube'')\<lparr>position := \<lparr>pos_x = 0, pos_y = 0, pos_z = 0\<rparr>\<rparr>,
          (predict m ''sphere'')\<lparr>position := \<lparr>pos_x = 2, pos_y = 0, pos_z = 0\<rparr>\<rparr>]"
  by (simp add: extract_multiple_objects_def and_in_cube_and_sphere split_cube_and_sphere
        and_objects_def enumerate_eq_zip strip_cube strip_sphere
        upt_rec [of 0] upt_rec [of 1] upt_rec [of "Suc 0"] del: str_in.simps)

text \<open>
  C1. The claim is that \<^verbatim>\<open>"cube and sphere"\<close> gives two objects. The parser gives one: no
  indicator of \<open>is_multi_object\<close> matches the text (the indicator for a conjunction asks
  for \<^verbatim>\<open>and\<close>, white space and the letter \<^verbatim>\<open>a\<close>), so \<open>parse\<close> returns the single prediction for
  the whole text and never reaches the split on \<^verbatim>\<open>" and "\<close>.
\<close>

theorem parse_cube_and_sphere:
  "parse m ''cube and sphere'' = Inr [predict m ''cube and sphere'']"
  by (simp only: parse_def Let_def lower_cube_and_sphere not_multi_cube_and_sphere if_False)

theorem parse_cube_and_sphere_witness:
  "map_sum id (map shape) (parse (init_model
       \<lparr>shape_classifier = (\<lambda>t. ''cube''), shape_proba = (\<lambda>t. 1),
        size_predictor = (\<lambda>t. 1), radius_predictor = (\<lambda>t. 1),
        height_predictor = (\<lambda>t. 2)\<rparr>) ''cube and sphere'') = Inr [''sphere'']"
proof -
  have "any_in [''sphere'', ''ball'', ''orb'', ''globe''] (lower ''cube and sphere'')"
    by code_simp
  then have "shape (rule_based_parse ''cube and sphere'') = ''sphere''"
    by (simp add: rule_based_parse_def Let_def)
  then show ?thesis
    using parse_cube_and_sphere [of "init_model
       \<lparr>shape_classifier = (\<lambda>t. ''cube''), shape_proba = (\<lambda>t. 1),
        size_predictor = (\<lambda>t. 1), radius_predictor = (\<lambda>t. 1),
        height_predictor = (\<lambda>t. 2)\<rparr>"]
    by (simp add: init_model_def predict_def)
qed

subsection \<open>The composite \<^verbatim>\<open>"house"\<close>\<close>

lemma lower_house: "lower ''house'' = ''house''"
  by code_simp

lemma not_multi_house: "is_multi_object ''house'' = False"
  by code_simp

lemma no_and_house: "str_in '' and '' ''house'' = False"
  by code_simp

lemma no_quantity_house: "search quantity_pattern ''house'' = None"
  by code_simp

lemma house_in_house: "str_in ''house'' ''house''"
  by code_simp

lemma extract_house:
  "extract_multiple_objects m ''house'' =
     Inr [(predict m ''cube walls'')
            \<lparr>size_of := size_of (predict m ''cube walls'') * 3.0,
             radius := radius (predict m ''cube walls'') * 3.0,
             position := \<lparr>pos_x = 0, pos_y = 0, pos_z = 0\<rparr>\<rparr>,
          (predict m ''cone roof'')
            \<lparr>size_of := size_of (predict m ''cone roof'') * 1.5,
             radius := radius (predict m ''cone roof'') * 1.5,
             position := \<lparr>pos_x = 0, pos_y = 2, pos_z = 0\<rparr>\<rparr>]"
  by (simp add: extract_multiple_objects_def no_and_house no_quantity_house composite_shapes_def
       house_in_house composite_part_def Let_def del: str_in.simps search.simps)

text \<open>
  C2. The claim is that \<^verbatim>\<open>"house"\<close> gives the two parts of the composite. The parser gives
  one object: no indicator of \<open>is_multi_object\<close> matches the text, so \<open>parse\<close> returns the
  single prediction for the whole text and never reaches Pattern 3, which would give the
  two scaled parts (\<open>extract_house\<close>).
\<close>

theorem parse_house: "parse m ''house'' = Inr [predict m ''house'']"
  by (simp only: parse_def Let_def lower_house not_multi_house if_False)

theorem parse_house_witness:
  "map_sum id length (parse (init_model
       \<lparr>shape_classifier = (\<lambda>t. ''cube''), shape_proba = (\<lambda>t. 1),
        size_predictor = (\<lambda>t. 1), radius_predictor = (\<lambda>t. 1),
        height_predictor = (\<lambda>t. 2)\<rparr>) ''house'') = Inr 1"
  using parse_house [of "init_model
       \<lparr>shape_classifier = (\<lambda>t. ''cube''), shape_proba = (\<lambda>t. 1),
        size_predictor = (\<lambda>t. 1), radius_predictor = (\<lambda>t. 1),
        height_predictor = (\<lambda>t. 2)\<rparr>"]
  by simp

subsection \<open>Stacking: \<^verbatim>\<open>"stack 3 cube"\<close>\<close>

lemma lower_stack_3: "lower ''stack 3 cube'' = ''stack 3 cube''"
  by code_simp

lemma multi_stack_3: "is_multi_object ''stack 3 cube''"
  by code_simp

lemma no_and_stack_3: "str_in '' and '' ''stack 3 cube'' = False"
  by code_simp

lemma quantity_stack_3: "search quantity_pattern ''stack 3 cube'' = Some [''3'', ''cube'']"
  by code_simp

text \<open>
  C3. The claim is that \<^verbatim>\<open>"stack 3 cube"\<close> gives three objects stacked along Y. The parser
  gives the three objects of Pattern 2, in a row along X at -3, -1 and 1 with Y = 0: the
  quantity pattern matches \<^verbatim>\<open>"3 cube"\<close> inside the text, and the extraction returns before
  it tries the stacking pattern.
\<close>

theorem parse_stack_3_cube:
  "parse m ''stack 3 cube'' =
     Inr [(predict m ''cube'')\<lparr>position := \<lparr>pos_x = - 3, pos_y = 0, pos_z = 0\<rparr>\<rparr>,
          (predict m ''cube'')\<lparr>position := \<lparr>pos_x = - 1, pos_y = 0, pos_z = 0\<rparr>\<rparr>,
          (predict m ''cube'')\<lparr>position := \<lparr>pos_x = 1, pos_y = 0, pos_z = 0\<rparr>\<rparr>]"
  by (simp add: parse_def Let_def lower_stack_3 multi_stack_3 extract_multiple_objects_def
       no_and_stack_3 quantity_stack_3 match_group_1 match_group_2 py_int_3
       quantity_objects_def upt_0_3 del: str_in.simps search.simps)

theorem parse_stack_3_cube_witness:
  "map_sum id (map (pos_y \<circ> position)) (parse (init_model
       \<lparr>shape_classifier = (\<lambda>t. ''cube''), shape_proba = (\<lambda>t. 1),
        size_predictor = (\<lambda>t. 1), radius_predictor = (\<lambda>t. 1),
        height_predictor = (\<lambda>t. 2)\<rparr>) ''stack 3 cube'') = Inr [0, 0, 0]"
  using parse_stack_3_cube [of "init_model
       \<lparr>shape_classifier = (\<lambda>t. ''cube''), shape_proba = (\<lambda>t. 1),
        size_predictor = (\<lambda>t. 1), radius_predictor = (\<lambda>t. 1),
        height_predictor = (\<lambda>t. 2)\<rparr>"]
  by simp

subsection \<open>Quantity: \<^verbatim>\<open>"3 cubes"\<close>\<close>

lemma lower_3_cubes: "lower ''3 cubes'' = ''3 cubes''"
  by code_simp

lemma multi_3_cubes: "is_multi_object ''3 cubes''"
  by code_simp

lemma no_and_3_cubes: "str_in '' and '' ''3 cubes'' = False"
  by code_simp

lemma quantity_3_cubes: "search quantity_pattern ''3 cubes'' = Some [''3'', ''cube'']"
  by code_simp

lemma three_cubes_row:
  "parse m ''3 cubes'' =
     Inr [(predict m ''cube'')\<lparr>position := \<lparr>pos_x = - 3, pos_y = 0, pos_z = 0\<rparr>\<rparr>,
          (predict m ''cube'')\<lparr>position := \<lparr>pos_x = - 1, pos_y = 0, pos_z = 0\<rparr>\<rparr>,
          (predict m ''cube'')\<lparr>position := \<lparr>pos_x = 1, pos_y = 0, pos_z = 0\<rparr>\<rparr>]"
  by (simp add: parse_def Let_def lower_3_cubes multi_3_cubes extract_multiple_objects_def
       no_and_3_cubes quantity_3_cubes match_group_1 match_group_2 py_int_3
       quantity_objects_def upt_0_3 del: str_in.simps search.simps)

lemma rule_based_cube: "shape (rule_based_parse ''cube'') = ''cube''"
proof -
  have "\<not> any_in [''sphere'', ''ball'', ''orb'', ''globe''] (lower ''cube'')" by code_simp
  moreover have "any_in [''cube'', ''box'', ''block'', ''square''] (lower ''cube'')" by code_simp
  ultimately show ?thesis by (simp add: rule_based_parse_def Let_def)
qed

lemma shape_predict_cube:
  "shape (predict m ''cube'') = (if trained m then shape_classifier (fitted m) ''cube'' else ''cube'')"
  by (simp add: predict_def Let_def rule_based_cube)

text \<open>In a trained state whose classifier answers \<^verbatim>\<open>sphere\<close> for every text, the three objects
  are spheres.\<close>

theorem parse_3_cubes_counterexample:
  "map_sum id (map shape)
     (parse ((init_model
       \<lparr>shape_classifier = (\<lambda>t. ''sphere''), shape_proba = (\<lambda>t. 1),
        size_predictor = (\<lambda>t. 1), radius_predictor = (\<lambda>t. 1),
        height_predictor = (\<lambda>t. 2)\<rparr>)\<lparr>trained := True\<rparr>) ''3 cubes'') =
   Inr [''sphere'', ''sphere'', ''sphere'']"
  unfolding three_cubes_row by (simp add: predict_def init_model_def Let_def)

text \<open>
  C4, as amended. \<^verbatim>\<open>"3 cubes"\<close> gives exactly three objects at X = -3, -1, 1 with
  Y = Z = 0, each the prediction for \<^verbatim>\<open>"cube"\<close> moved to its position. So all three have the
  shape the predictor gives for \<^verbatim>\<open>"cube"\<close>: cube in the rule-based mode, and in the
  statistical mode the label the fitted classifier answers for \<^verbatim>\<open>"cube"\<close>.
\<close>

theorem parse_3_cubes:
  "\<exists>a b c. parse m ''3 cubes'' = Inr [a, b, c] \<and>
     shape a = shape (predict m ''cube'') \<and>
     shape b = shape (predict m ''cube'') \<and>
     shape c = shape (predict m ''cube'') \<and>
     position a = \<lparr>pos_x = - 3, pos_y = 0, pos_z = 0\<rparr> \<and>
     position b = \<lparr>pos_x = - 1, pos_y = 0, pos_z = 0\<rparr> \<and>
     position c = \<lparr>pos_x = 1, pos_y = 0, pos_z = 0\<rparr> \<and>
     a = (predict m ''cube'')\<lparr>position := position a\<rparr> \<and>
     b = (predict m ''cube'')\<lparr>position := position b\<rparr> \<and>
     c = (predict m ''cube'')\<lparr>position := position c\<rparr> \<and>
     shape (predict m ''cube'') =
       (if trained m then shape_classifier (fitted m) ''cube'' else ''cube'')"
  unfolding three_cubes_row
  by (intro exI [of _ "(predict m ''cube'')\<lparr>position := \<lparr>pos_x = - 3, pos_y = 0, pos_z = 0\<rparr>\<rparr>"]
        exI [of _ "(predict m ''cube'')\<lparr>position := \<lparr>pos_x = - 1, pos_y = 0, pos_z = 0\<rparr>\<rparr>"]
        exI [of _ "(predict m ''cube'')\<lparr>position := \<lparr>pos_x = 1, pos_y = 0, pos_z = 0\<rparr>\<rparr>"])
     (simp add: shape_predict_cube)

theorem parse_3_cubes_witness:
  "map_sum id (map (\<lambda>ob. (shape ob, pos_x (position ob), pos_y (position ob), pos_z (position ob))))
     (parse (init_model
       \<lparr>shape_classifier = (\<lambda>t. ''sphere''), shape_proba = (\<lambda>t. 1),
        size_predictor = (\<lambda>t. 1), radius_predictor = (\<lambda>t. 1),
        height_predictor = (\<lambda>t. 2)\<rparr>) ''3 cubes'') =
   Inr [(''cube'', - 3, 0, 0), (''cube'', - 1, 0, 0), (''cube'', 1, 0, 0)]"
proof -
  let ?m = "init_model
       \<lparr>shape_classifier = (\<lambda>t. ''sphere''), shape_proba = (\<lambda>t. 1),
        size_predictor = (\<lambda>t. 1), radius_predictor = (\<lambda>t. 1),
        height_predictor = (\<lambda>t. 2)\<rparr>"
  have untrained: "\<not> trained ?m" by (simp add: init_model_def)
  from parse_3_cubes [of ?m] obtain a b c where
    "parse ?m ''3 cubes'' = Inr [a, b, c]"
    "shape a = shape (predict ?m ''cube'')"
    "shape b = shape (predict ?m ''cube'')"
    "shape c = shape (predict ?m ''cube'')"
    "position a = \<lparr>pos_x = - 3, pos_y = 0, pos_z = 0\<rparr>"
    "position b = \<lparr>pos_x = - 1, pos_y = 0, pos_z = 0\<rparr>"
    "position c = \<lparr>pos_x = 1, pos_y = 0, pos_z = 0\<rparr>"
    "shape (predict ?m ''cube'') =
       (if trained ?m then shape_classifier (fitted ?m) ''cube'' else ''cube'')"
    by blast
  with untrained show ?thesis by simp
qed

subsection \<open>The cap on the count\<close>

lemma length_stack_objects: "length (stack_objects m w n y) = n"
  by (induction n arbitrary: y) (simp_all add: Let_def)

lemma search_groups:
  assumes "search quantity_pattern t = Some g \<or> search stack_pattern t = Some g"
  shows "\<exists>d w. g = [d, w] \<and> d \<noteq> [] \<and> (\<forall>c \<in> set d. c \<in> set digits)"
  using assms search_Some_rmatch quantity_groups stack_groups by blast

lemma py_int_cases:
  assumes "d \<noteq> []" "\<forall>c \<in> set d. c \<in> set digits"
  shows "(\<exists>n. py_int d = Inr n) \<or>
         (py_int d = Inl (ValueError d) \<and> int_max_str_digits < length d)"
  using assms by (simp add: py_int_def list_all_iff)

text \<open>The only exception \<open>parse\<close> can raise is the \<^verbatim>\<open>ValueError\<close> of \<^verbatim>\<open>int\<close> on a count of more
  digits than the limit.\<close>

lemma parse_raises:
  assumes "parse m text = Inl e"
  shows "\<exists>d. e = ValueError d \<and> int_max_str_digits < length d"
proof -
  have ok: "(\<exists>d w n. match_group g 1 = Inr d \<and> py_int d = Inr n \<and> match_group g 2 = Inr w) \<or>
            (\<exists>d. match_group g 1 = Inr d \<and> py_int d = Inl (ValueError d) \<and>
                 int_max_str_digits < length d)"
    if "search quantity_pattern t = Some g \<or> search stack_pattern t = Some g" for g t
  proof -
    from search_groups [OF that] obtain d w where
      g: "g = [d, w]" "d \<noteq> []" "\<forall>c \<in> set d. c \<in> set digits" by blast
    from g(1) have m: "match_group g 1 = Inr d" "match_group g 2 = Inr w"
      by (simp_all add: match_group_def)
    from py_int_cases [OF g(2,3)] m show ?thesis by blast
  qed
  have "\<exists>d. e = ValueError d \<and> int_max_str_digits < length d"
    if "extract_multiple_objects m t = Inl e" for t
  proof (cases "str_in '' and '' t")
    case True
    with that show ?thesis by (simp add: extract_multiple_objects_def)
  next
    case False
    show ?thesis
    proof (cases "search quantity_pattern t")
      case (Some g)
      with ok [of t g] False that show ?thesis
        by (auto simp: extract_multiple_objects_def)
    next
      case None
      show ?thesis
      proof (cases "composite_objects m composite_shapes t")
        case (Some objs)
        with None False that show ?thesis by (simp add: extract_multiple_objects_def)
      next
        case cNone: None
        show ?thesis
        proof (cases "search stack_pattern t")
          case None': None
          with None cNone False that show ?thesis by (simp add: extract_multiple_objects_def)
        next
          case (Some g)
          with ok [of t g] None cNone False that show ?thesis
            by (auto simp: extract_multiple_objects_def)
        qed
      qed
    qed
  qed
  with assms show ?thesis
    by (simp add: parse_def Let_def split: if_splits)
qed

text \<open>When the rule that applies reads a count of more digits than the limit, \<open>parse\<close>
  raises.\<close>

lemma count_too_long:
  assumes "is_multi_object (lower text)" and "\<not> str_in '' and '' (lower text)"
    and "search quantity_pattern (lower text) = Some g \<or>
       (search quantity_pattern (lower text) = None \<and>
        composite_objects m composite_shapes (lower text) = None \<and>
        search stack_pattern (lower text) = Some g)"
    and "match_group g 1 = Inr d" and "int_max_str_digits < length d"
  shows "parse m text = Inl (ValueError d)"
proof -
  from assms(5) have "py_int d = Inl (ValueError d)" by (simp add: py_int_def)
  with assms(1-4) show ?thesis
    by (auto simp: parse_def Let_def extract_multiple_objects_def)
qed

lemma lower_12_cubes: "lower ''12 cubes'' = ''12 cubes''"
  by code_simp

lemma multi_12_cubes: "is_multi_object ''12 cubes''"
  by code_simp

lemma no_and_12_cubes: "\<not> str_in '' and '' ''12 cubes''"
  by code_simp

lemma quantity_12_cubes: "search quantity_pattern ''12 cubes'' = Some [''12'', ''cube'']"
  by code_simp

lemma py_int_12: "py_int ''12'' = Inr 12"
  by (simp add: py_int_def digits_def digit_val_def int_max_str_digits_def)

lemma lower_stack_12: "lower ''stack 12 foo'' = ''stack 12 foo''"
  by code_simp

lemma multi_stack_12: "is_multi_object ''stack 12 foo''"
  by code_simp

lemma no_and_stack_12: "\<not> str_in '' and '' ''stack 12 foo''"
  by code_simp

lemma quantity_stack_12: "search quantity_pattern ''stack 12 foo'' = None"
  by code_simp

lemma stack_stack_12: "search stack_pattern ''stack 12 foo'' = Some [''12'', ''foo'']"
  by code_simp

lemma names_stack_12:
  "list_all (\<lambda>name. \<not> str_in name ''stack 12 foo'') (map fst composite_shapes)" by code_simp

lemma composite_objects_None:
  "list_all (\<lambda>name. \<not> str_in name t) (map fst cs) \<Longrightarrow> composite_objects m cs t = None"
  by (induction cs) auto

lemma lower_12_balls: "lower ''12 balls'' = ''12 balls''"
  by code_simp

lemma not_multi_12_balls: "is_multi_object ''12 balls'' = False"
  by code_simp

lemma quantity_12_balls: "search quantity_pattern ''12 balls'' = Some [''12'', ''ball'']"
  by code_simp

text \<open>\<^verbatim>\<open>"12 balls"\<close> is a request for twelve objects by the quantity pattern, and gives one
  object: the detection does not fire.\<close>

theorem count_capped_at_ten_counterexample:
  "search quantity_pattern (lower ''12 balls'') = Some [''12'', ''ball''] \<and>
   py_int ''12'' = Inr 12 \<and>
   map_sum id length (parse (init_model
       \<lparr>shape_classifier = (\<lambda>t. ''cube''), shape_proba = (\<lambda>t. 1),
        size_predictor = (\<lambda>t. 1), radius_predictor = (\<lambda>t. 1),
        height_predictor = (\<lambda>t. 2)\<rparr>) ''12 balls'') = Inr 1"
proof -
  have "parse m ''12 balls'' = Inr [predict m ''12 balls'']" for m
    by (simp only: parse_def Let_def lower_12_balls not_multi_12_balls if_False)
  then show ?thesis
    by (simp add: lower_12_balls quantity_12_balls py_int_12 del: search.simps)
qed

text \<open>
  C5, as amended. When the detection fires, the text has no \<^verbatim>\<open>" and "\<close>, and the count is
  read by the quantity rule, or by the stacking rule where the quantity pattern does not
  match and no composite name occurs, then a count greater than 10 that \<^verbatim>\<open>int\<close> accepts (at
  most 4300 digits) gives exactly 10 objects, and no error. (\<open>g\<close> is the match of the rule
  that applies, \<open>d\<close> its first group, \<open>count\<close> the number \<open>d\<close> denotes.)
\<close>

theorem count_capped_at_ten:
  assumes multi: "is_multi_object (lower text)"
    and no_and: "\<not> str_in '' and '' (lower text)"
    and request:
      "search quantity_pattern (lower text) = Some g \<or>
       (search quantity_pattern (lower text) = None \<and>
        composite_objects m composite_shapes (lower text) = None \<and>
        search stack_pattern (lower text) = Some g)"
    and digits: "match_group g 1 = Inr d"
    and count: "py_int d = Inr count"
    and large: "10 < count"
  shows "\<exists>objects. parse m text = Inr objects \<and> length objects = 10"
proof -
  from request have "search quantity_pattern (lower text) = Some g \<or> search stack_pattern (lower text) = Some g"
    by blast
  from search_groups [OF this] obtain d' w where g: "g = [d', w]" by blast
  with digits have d: "d' = d" by (simp add: match_group_def)
  have g1: "match_group g 1 = Inr d" and g2: "match_group g 2 = Inr w"
    using g d by (simp_all add: match_group_def)
  from large have n: "nat (min count 10) = 10" by simp
  from request show ?thesis
  proof
    assume q: "search quantity_pattern (lower text) = Some g"
    have "parse m text = Inr (quantity_objects m w count)"
      using multi no_and q g1 g2 count
      by (simp add: parse_def Let_def extract_multiple_objects_def)
    moreover have "length (quantity_objects m w count) = 10"
      using n by (simp add: quantity_objects_def)
    ultimately show ?thesis by blast
  next
    assume s: "search quantity_pattern (lower text) = None \<and>
        composite_objects m composite_shapes (lower text) = None \<and>
        search stack_pattern (lower text) = Some g"
    have "parse m text = Inr (stack_objects m w (nat (min count 10)) 0)"
      using multi no_and s g1 g2 count
      by (simp add: parse_def Let_def extract_multiple_objects_def)
    moreover have "length (stack_objects m w (nat (min count 10)) 0) = 10"
      using n by (simp add: length_stack_objects)
    ultimately show ?thesis by blast
  qed
qed

theorem count_capped_at_ten_witness:
  "map_sum id length (parse (init_model
       \<lparr>shape_classifier = (\<lambda>t. ''cube''), shape_proba = (\<lambda>t. 1),
        size_predictor = (\<lambda>t. 1), radius_predictor = (\<lambda>t. 1),
        height_predictor = (\<lambda>t. 2)\<rparr>) ''12 cubes'') = Inr 10 \<and>
   map_sum id length (parse (init_model
       \<lparr>shape_classifier = (\<lambda>t. ''cube''), shape_proba = (\<lambda>t. 1),
        size_predictor = (\<lambda>t. 1), radius_predictor = (\<lambda>t. 1),
        height_predictor = (\<lambda>t. 2)\<rparr>) ''stack 12 foo'') = Inr 10"
proof -
  let ?m = "init_model
       \<lparr>shape_classifier = (\<lambda>t. ''cube''), shape_proba = (\<lambda>t. 1),
        size_predictor = (\<lambda>t. 1), radius_predictor = (\<lambda>t. 1),
        height_predictor = (\<lambda>t. 2)\<rparr>"
  have g: "match_group [''12'', w] 1 = Inr ''12''" for w by (simp add: match_group_def)
  have big: "(10::int) < 12" by simp
  have "\<exists>objects. parse ?m ''12 cubes'' = Inr objects \<and> length objects = 10"
  proof (rule count_capped_at_ten [where g = "[''12'', ''cube'']" and d = "''12''" and count = 12])
    show "is_multi_object (lower ''12 cubes'')" by (simp only: lower_12_cubes multi_12_cubes)
    show "\<not> str_in '' and '' (lower ''12 cubes'')" by (simp only: lower_12_cubes no_and_12_cubes not_False_eq_True)
    show "search quantity_pattern (lower ''12 cubes'') = Some [''12'', ''cube''] \<or>
       (search quantity_pattern (lower ''12 cubes'') = None \<and>
        composite_objects ?m composite_shapes (lower ''12 cubes'') = None \<and>
        search stack_pattern (lower ''12 cubes'') = Some [''12'', ''cube''])"
      by (rule disjI1) (simp only: lower_12_cubes quantity_12_cubes)
  qed (rule g py_int_12 big)+
  moreover have "\<exists>objects. parse ?m ''stack 12 foo'' = Inr objects \<and> length objects = 10"
  proof (rule count_capped_at_ten [where g = "[''12'', ''foo'']" and d = "''12''" and count = 12])
    show "is_multi_object (lower ''stack 12 foo'')" by (simp only: lower_stack_12 multi_stack_12)
    show "\<not> str_in '' and '' (lower ''stack 12 foo'')"
      by (simp only: lower_stack_12 no_and_stack_12 not_False_eq_True)
    show "search quantity_pattern (lower ''stack 12 foo'') = Some [''12'', ''foo''] \<or>
       (search quantity_pattern (lower ''stack 12 foo'') = None \<and>
        composite_objects ?m composite_shapes (lower ''stack 12 foo'') = None \<and>
        search stack_pattern (lower ''stack 12 foo'') = Some [''12'', ''foo''])"
      unfolding lower_stack_12
      by (intro disjI2 conjI quantity_stack_12 stack_stack_12 composite_objects_None names_stack_12)
  qed (rule g py_int_12 big)+
  ultimately show ?thesis by auto
qed

subsection \<open>Counts the detection does not see\<close>

lemma lower_3_balls: "lower ''3 balls'' = ''3'' @ '' '' @ ''balls''"
  by code_simp

lemma quantity_3_balls: "search quantity_pattern ''3 balls'' = Some [''3'', ''ball'']"
  by code_simp

text \<open>
  C10. A text whose lower-cased form is a count, white space and one of \<^verbatim>\<open>balls\<close>,
  \<^verbatim>\<open>boxes\<close>, \<^verbatim>\<open>tubes\<close>, \<^verbatim>\<open>torus\<close> gives exactly one object, the prediction for the whole
  text, although the quantity pattern of the extraction matches it. The count indicator of
  the detection matches a text exactly when it has a count, white space and one of
  \<^verbatim>\<open>spheres\<close>, \<^verbatim>\<open>cubes\<close>, \<^verbatim>\<open>cylinders\<close>, \<^verbatim>\<open>cones\<close>.
\<close>

theorem count_without_plural_indicator:
  assumes form: "lower text = ds @ ws @ noun"
    and ds: "ds \<noteq> []" "\<forall>c \<in> set ds. c \<in> set digits"
    and ws: "ws \<noteq> []" "\<forall>c \<in> set ws. c \<in> set whitespace"
    and noun: "noun \<in> set [''balls'', ''boxes'', ''tubes'', ''torus'']"
  shows "parse m text = Inr [predict m text] \<and>
         search quantity_pattern (lower text) \<noteq> None \<and>
         (\<forall>t. search (hd multi_indicators) t \<noteq> None \<longleftrightarrow>
            (\<exists>p d w n q. t = p @ d @ w @ n @ q \<and>
               d \<noteq> [] \<and> (\<forall>c \<in> set d. c \<in> set digits) \<and>
               w \<noteq> [] \<and> (\<forall>c \<in> set w. c \<in> set whitespace) \<and>
               n \<in> set [''spheres'', ''cubes'', ''cylinders'', ''cones'']))"
proof (intro conjI allI)
  have "\<forall>n \<in> set [''balls'', ''boxes'', ''tubes'', ''torus''].
          \<forall>c \<in> set n. c \<notin> set indicator_letters"
    using letters_nouns unfolding list_all_iff .
  from bspec [OF this noun] have "\<forall>c \<in> set noun. c \<notin> set indicator_letters" .
  moreover have "\<forall>c \<in> set digits. c \<notin> set indicator_letters"
    using letters_digits unfolding list_all_iff .
  with ds(2) have "\<forall>c \<in> set ds. c \<notin> set indicator_letters" by blast
  moreover have "\<forall>c \<in> set whitespace. c \<notin> set indicator_letters"
    using letters_whitespace unfolding list_all_iff .
  with ws(2) have "\<forall>c \<in> set ws. c \<notin> set indicator_letters" by blast
  ultimately have "\<forall>c \<in> set (lower text). c \<notin> set indicator_letters"
    unfolding form by auto
  then have "\<not> is_multi_object (lower text)" by (rule not_multi_without_letters)
  then show "parse m text = Inr [predict m text]" by (simp add: parse_def Let_def)
next
  have stems: "list_all (\<lambda>noun. list_ex (\<lambda>n. prefix n noun)
      [''sphere'', ''cube'', ''cylinder'', ''cone'', ''torus'', ''ball'', ''box'', ''tube''])
      [''balls'', ''boxes'', ''tubes'', ''torus'']"
    by code_simp
  have "\<forall>noun \<in> set [''balls'', ''boxes'', ''tubes'', ''torus''].
      \<exists>n \<in> set [''sphere'', ''cube'', ''cylinder'', ''cone'', ''torus'', ''ball'', ''box'', ''tube''].
        prefix n noun"
    using stems unfolding list_all_iff list_ex_iff .
  from bspec [OF this noun] have "\<exists>n q. noun = n @ q \<and>
      n \<in> set [''sphere'', ''cube'', ''cylinder'', ''cone'', ''torus'', ''ball'', ''box'', ''tube'']"
    unfolding prefix_def by blast
  then obtain n q where n: "noun = n @ q"
    "n \<in> set [''sphere'', ''cube'', ''cylinder'', ''cone'', ''torus'', ''ball'', ''box'', ''tube'']"
    by blast
  from lang_quantity [OF ds ws n(2)] have "ds @ ws @ n \<in> lang quantity_pattern" .
  moreover have "lower text = [] @ (ds @ ws @ n) @ q" using form n(1) by simp
  ultimately show "search quantity_pattern (lower text) \<noteq> None"
    unfolding search_iff by blast
next
  fix t
  show "search (hd multi_indicators) t \<noteq> None \<longleftrightarrow>
            (\<exists>p d w n q. t = p @ d @ w @ n @ q \<and>
               d \<noteq> [] \<and> (\<forall>c \<in> set d. c \<in> set digits) \<and>
               w \<noteq> [] \<and> (\<forall>c \<in> set w. c \<in> set whitespace) \<and>
               n \<in> set [''spheres'', ''cubes'', ''cylinders'', ''cones''])"
    by (rule count_indicator_iff)
qed

theorem count_without_plural_indicator_witness:
  "map_sum id length (parse (init_model
       \<lparr>shape_classifier = (\<lambda>t. ''cube''), shape_proba = (\<lambda>t. 1),
        size_predictor = (\<lambda>t. 1), radius_predictor = (\<lambda>t. 1),
        height_predictor = (\<lambda>t. 2)\<rparr>) ''3 balls'') = Inr 1 \<and>
   search quantity_pattern ''3 balls'' = Some [''3'', ''ball'']"
proof -
  have 1: "''3'' \<noteq> []" and 2: "\<forall>c \<in> set ''3''. c \<in> set digits"
    and 3: "'' '' \<noteq> []" and 4: "\<forall>c \<in> set '' ''. c \<in> set whitespace"
    and 5: "''balls'' \<in> set [''balls'', ''boxes'', ''tubes'', ''torus'']"
    by (simp_all add: digits_def whitespace_def)
  from count_without_plural_indicator [OF lower_3_balls 1 2 3 4 5]
  have "parse (init_model
       \<lparr>shape_classifier = (\<lambda>t. ''cube''), shape_proba = (\<lambda>t. 1),
        size_predictor = (\<lambda>t. 1), radius_predictor = (\<lambda>t. 1),
        height_predictor = (\<lambda>t. 2)\<rparr>) ''3 balls'' = Inr [predict (init_model
       \<lparr>shape_classifier = (\<lambda>t. ''cube''), shape_proba = (\<lambda>t. 1),
        size_predictor = (\<lambda>t. 1), radius_predictor = (\<lambda>t. 1),
        height_predictor = (\<lambda>t. 2)\<rparr>) ''3 balls'']"
    by (rule conjunct1)
  then show ?thesis using quantity_3_balls by simp
qed

subsection \<open>The handlers\<close>

lemma parse_text_not_object:
  "dict_get data ''text'' (JStr []) = Inl e \<Longrightarrow> parse_text s data = (500, ExceptionBody e, [])"
  by (simp add: parse_text_def)



lemma train_models_data: "training_data (fst (train_models sk m)) = training_data m"
  by (simp add: train_models_def split: sum.splits prod.splits option.splits)

lemma retrain_data:
  "training_data (model (snd (retrain sk s data))) =
     (case dict_get data ''example'' JNull of
        Inr ex \<Rightarrow> if truthy ex then training_data (model s) @ [ex] else training_data (model s)
      | Inl e \<Rightarrow> training_data (model s))"
proof (cases "dict_get data ''example'' JNull")
  case (Inl e)
  then show ?thesis by (simp add: retrain_def)
next
  case (Inr ex)
  show ?thesis
  proof (cases "truthy ex")
    case False
    with Inr show ?thesis by (simp add: retrain_def)
  next
    case True
    let ?m1 = "(model s)\<lparr>training_data := training_data (model s) @ [ex]\<rparr>"
    obtain m2 err where t: "train_models sk ?m1 = (m2, err)" by (cases "train_models sk ?m1")
    have "training_data m2 = training_data ?m1"
      using train_models_data [of sk ?m1] t by simp
    with Inr True t show ?thesis
      by (cases err) (simp_all add: retrain_def Let_def save_training_data_def)
  qed
qed

lemma serve_prefix: "prefix (training_data (model s)) (training_data (model (snd (serve sk s r))))"
proof (cases r)
  case (ParseText x1)
  then show ?thesis by (simp split: prod.splits)
next
  case Health
  then show ?thesis by simp
next
  case (Retrain data)
  then show ?thesis by (simp add: retrain_data split: sum.splits)
qed

lemma session_prefix: "prefix (training_data (model s)) (training_data (model (session sk s rs)))"
proof (induction rs arbitrary: s)
  case Nil
  then show ?case by simp
next
  case (Cons r rs)
  have "prefix (training_data (model s)) (training_data (model (snd (serve sk s r))))"
    by (rule serve_prefix)
  also have "prefix \<dots> (training_data (model (session sk (snd (serve sk s r)) rs)))"
    by (rule Cons.IH)
  finally show ?case by simp
qed

text \<open>
  C9. A retrain request leaves the training data as they are when the body carries no
  example (or the request fails before the append), and appends exactly the example
  otherwise, also when training raises afterwards. Over any sequence of requests the
  training data at the start are a prefix of the training data at the end.
\<close>

theorem corpus_never_shrinks:
  "training_data (model (snd (retrain sk s data))) =
     (case dict_get data ''example'' JNull of
        Inr new_example \<Rightarrow>
          if truthy new_example then training_data (model s) @ [new_example]
          else training_data (model s)
      | Inl e \<Rightarrow> training_data (model s)) \<and>
   prefix (training_data (model s)) (training_data (model (session sk s requests)))"
  using retrain_data session_prefix by (rule conjI)

theorem corpus_never_shrinks_witness:
  "training_data (model (snd (retrain
      \<lparr>fit_estimators = (\<lambda>est texts shapes sizes radii heights. (est, None)),
       fit_clusterer = (\<lambda>positions. None)\<rparr>
      \<lparr>model = init_model
         \<lparr>shape_classifier = (\<lambda>t. ''cube''), shape_proba = (\<lambda>t. 1),
          size_predictor = (\<lambda>t. 1), radius_predictor = (\<lambda>t. 1),
          height_predictor = (\<lambda>t. 2)\<rparr>, training_file = None\<rparr>
      (JObj [(''example'', JObj [(''text'', JStr ''red cube'')])]))))
   = [JObj [(''text'', JStr ''red cube'')]] \<and>
   training_data (model (snd (retrain
      \<lparr>fit_estimators = (\<lambda>est texts shapes sizes radii heights. (est, None)),
       fit_clusterer = (\<lambda>positions. None)\<rparr>
      \<lparr>model = init_model
         \<lparr>shape_classifier = (\<lambda>t. ''cube''), shape_proba = (\<lambda>t. 1),
          size_predictor = (\<lambda>t. 1), radius_predictor = (\<lambda>t. 1),
          height_predictor = (\<lambda>t. 2)\<rparr>, training_file = None\<rparr>
      (JObj [])))) = []"
proof -
  let ?sk = "\<lparr>fit_estimators = (\<lambda>est texts shapes sizes radii heights. (est, None)),
       fit_clusterer = (\<lambda>positions. None)\<rparr>"
  let ?s = "\<lparr>model = init_model
         \<lparr>shape_classifier = (\<lambda>t. ''cube''), shape_proba = (\<lambda>t. 1),
          size_predictor = (\<lambda>t. 1), radius_predictor = (\<lambda>t. 1),
          height_predictor = (\<lambda>t. 2)\<rparr>, training_file = None\<rparr>"
  have "training_data (model (snd (retrain ?sk ?s (JObj [(''example'', JObj [(''text'', JStr ''red cube'')])]))))
      = [JObj [(''text'', JStr ''red cube'')]]"
    using corpus_never_shrinks [of ?sk ?s "JObj [(''example'', JObj [(''text'', JStr ''red cube'')])]" "[]"]
    by (simp add: init_model_def)
  moreover have "training_data (model (snd (retrain ?sk ?s (JObj [])))) = []"
    using corpus_never_shrinks [of ?sk ?s "JObj []" "[]"]
    by (simp add: init_model_def)
  ultimately show ?thesis by (rule conjI)
qed

end
